theory Spec2Isabelle
  imports Main "HOL-Library.Word"
begin

section \<open>The PITR coordinator (pitr/pitr.go)\<close>

text \<open>
  A shallow embedding of \<^verbatim>\<open>pitr/pitr.go\<close>. The file is orchestration: it calls the
  file search and selection, the merge object (\<^verbatim>\<open>NewMerge\<close>, \<^verbatim>\<open>Map\<close>, \<^verbatim>\<open>Reduce\<close>,
  \<^verbatim>\<open>Close\<close>), the DDL handle, the file system and the TiKV store. None of these is
  defined in \<^verbatim>\<open>pitr.go\<close>; each is a field of the record \<open>env\<close> below: a function from
  the state of the outside world to a result and a new state of the world. The functions
  of \<^verbatim>\<open>pitr.go\<close> are translated one by one over such an environment, and every call
  of a collaborator is appended, with its outcome, to a trace of events.
\<close>

subsection \<open>Machine integers\<close>

text \<open>
  Go's \<^verbatim>\<open>int64\<close> and \<^verbatim>\<open>uint64\<close> are 64-bit words; \<open>sint\<close> reads a word as
  \<^verbatim>\<open>int64\<close>, \<open>uint\<close> as \<^verbatim>\<open>uint64\<close>. The conversion \<^verbatim>\<open>int64(x)\<close> of a
  \<^verbatim>\<open>uint64\<close> keeps the bits, so it is the identity on words and changes only the reading.
\<close>

type_synonym int64 = "64 word"
type_synonym uint64 = "64 word"

definition int64_less :: "int64 \<Rightarrow> int64 \<Rightarrow> bool" where
  "int64_less a b = (sint a < sint b)"

definition int64_le :: "int64 \<Rightarrow> int64 \<Rightarrow> bool" where
  "int64_le a b = (sint a \<le> sint b)"

definition int64_of_uint64 :: "uint64 \<Rightarrow> int64" where
  "int64_of_uint64 x = x"

subsection \<open>Data\<close>

text \<open>\<^verbatim>\<open>pb.Binlog\<close>: only \<^verbatim>\<open>CommitTs\<close> is read here; it is compared with an \<^verbatim>\<open>int64\<close>.\<close>

record Binlog =
  CommitTs :: int64

text \<open>
  \<^verbatim>\<open>model.Job\<close> and its \<^verbatim>\<open>BinlogInfo\<close> (\<^verbatim>\<open>model.HistoryInfo\<close>) of
  \<^verbatim>\<open>github.com/pingcap/parser/model\<close>: \<^verbatim>\<open>SchemaVersion\<close> is an \<^verbatim>\<open>int64\<close>,
  \<^verbatim>\<open>FinishedTS\<close> a \<^verbatim>\<open>uint64\<close>, which line 165 converts with \<^verbatim>\<open>int64(...)\<close> before
  comparing it with \<^verbatim>\<open>beginTS\<close>. Every job of the history carries a \<^verbatim>\<open>BinlogInfo\<close>.
\<close>

record HistoryInfo =
  SchemaVersion :: int64
  FinishedTS :: uint64

record Job =
  ID :: int64
  Query :: string
  BinlogInfo :: HistoryInfo

text \<open>The fields of \<^verbatim>\<open>Config\<close> that \<^verbatim>\<open>pitr.go\<close> reads.\<close>

record Config =
  Dir :: string
  StartTSO :: int64
  StopTSO :: int64
  PDURLs :: string
  schemaFile :: string
  reserveTempDir :: bool

subsection \<open>Errors\<close>

text \<open>
  An error is a message, or an error wrapped by \<^verbatim>\<open>errors.Annotate\<close> or
  \<^verbatim>\<open>errors.Trace\<close>; \<open>Cause\<close> unwraps it as \<^verbatim>\<open>errors.Cause\<close> does. A Go \<^verbatim>\<open>error\<close>
  result is an \<open>err option\<close>, \<open>None\<close> for \<^verbatim>\<open>nil\<close>; a result with a value is
  \<open>err + 'a\<close>.
\<close>

datatype err = Err string | Annotate err string | Trace err

fun Cause :: "err \<Rightarrow> err" where
  "Cause (Err s) = Err s"
| "Cause (Annotate e s) = Cause e"
| "Cause (Trace e) = Cause e"

fun errOf :: "err + 'a \<Rightarrow> err option" where
  "errOf (Inl e) = Some e"
| "errOf (Inr v) = None"

text \<open>What a call of \<^verbatim>\<open>Process\<close> does: it returns an error or \<^verbatim>\<open>nil\<close>, or it panics.\<close>

datatype outcome = Return "err option" | Panic string

subsection \<open>isAcceptableBinlog\<close>

definition isAcceptableBinlog :: "Binlog \<Rightarrow> int64 \<Rightarrow> int64 \<Rightarrow> bool" where
  "isAcceptableBinlog binlog startTs endTs =
     (int64_le startTs (CommitTs binlog) \<and> (endTs = 0 \<or> int64_le (CommitTs binlog) endTs))"

subsection \<open>Handles of the collaborators\<close>

text \<open>
  The values that \<^verbatim>\<open>pitr.go\<close> only passes on: the parsed URLs, the TiKV store, its
  version and snapshot, the snapshot meta and the merge object.
\<close>

datatype URLsValue = URLsValue (HostString: string)
datatype Storage = Storage nat
datatype Version = Version uint64
datatype Snapshot = Snapshot nat
datatype Meta = NewSnapshotMeta Snapshot
datatype Merge = Merge nat

subsection \<open>Events and state\<close>

text \<open>
  One event for each call of a collaborator, with the outcome of the call, and two for
  entering and leaving \<^verbatim>\<open>PITR.ExecuteHistoryDDLs\<close>.
\<close>

datatype event =
    Ev_searchFiles string "err option"
  | Ev_filterFiles int64 int64 "err option"
  | Ev_getFirstBinlogCommitTSAndFileSize "err option"
  | Ev_NewMerge "err option"
  | Ev_Map "err option"
  | Ev_Reduce "err option"
  | Ev_Close bool
  | Ev_ReadFile string "err + string"
  | Ev_ExecuteDDL string string "err option"
  | Ev_ddl_ExecuteHistoryDDLs "Job list" "err option"
  | Ev_NewURLsValue string "err option"
  | Ev_store_Register string "err option"
  | Ev_store_New string "err option"
  | Ev_CurrentVersion "err option"
  | Ev_GetSnapshot "err option"
  | Ev_GetAllHistoryDDLJobs "err + Job list"
  | Ev_tiStore_Close
  | Ev_store_UnRegister string
  | Enter_ExecuteHistoryDDLs int64
  | Exit_ExecuteHistoryDDLs "err option"

record 'w state =
  world :: 'w
  trace :: "event list"

definition init :: "'w \<Rightarrow> 'w state" where
  "init w = \<lparr>world = w, trace = []\<rparr>"

definition emit :: "event \<Rightarrow> 'w state \<Rightarrow> 'w state" where
  "emit ev st = st\<lparr>trace := trace st @ [ev]\<rparr>"

text \<open>A call of a collaborator: it runs on the world, and the event of its result is logged.\<close>

definition call :: "('w \<Rightarrow> 'r \<times> 'w) \<Rightarrow> ('r \<Rightarrow> event) \<Rightarrow> 'w state \<Rightarrow> 'r \<times> 'w state" where
  "call f ev st =
     (case f (world st) of (r, w') \<Rightarrow> (r, \<lparr>world = w', trace = trace st @ [ev r]\<rparr>))"

text \<open>A call whose result is dropped, as in a \<^verbatim>\<open>defer\<close>.\<close>

definition call_void :: "('w \<Rightarrow> 'w) \<Rightarrow> event \<Rightarrow> 'w state \<Rightarrow> 'w state" where
  "call_void f ev st = \<lparr>world = f (world st), trace = trace st @ [ev]\<rparr>"

subsection \<open>The collaborators\<close>

text \<open>
  \<open>'w\<close> is the state of the world (files, the TiKV cluster, the schema state of the DDL
  handle, the temporary segments), \<open>'f\<close> the type of the elements that \<^verbatim>\<open>searchFiles\<close>
  returns. \<^verbatim>\<open>merge.Close\<close> is deferred, so its result is not read.
\<close>

record ('w, 'f) env =
  searchFiles :: "string \<Rightarrow> 'w \<Rightarrow> (err + 'f list) \<times> 'w"
  filterFiles :: "'f list \<Rightarrow> int64 \<Rightarrow> int64 \<Rightarrow> 'w \<Rightarrow> (err + 'f list \<times> int64) \<times> 'w"
  getFirstBinlogCommitTSAndFileSize :: "'f \<Rightarrow> 'w \<Rightarrow> (err + int64 \<times> int64) \<times> 'w"
  NewMerge :: "'f list \<Rightarrow> int64 \<Rightarrow> 'w \<Rightarrow> (err + Merge) \<times> 'w"
  merge_Map :: "Merge \<Rightarrow> 'w \<Rightarrow> err option \<times> 'w"
  merge_Reduce :: "Merge \<Rightarrow> 'w \<Rightarrow> err option \<times> 'w"
  merge_Close :: "Merge \<Rightarrow> bool \<Rightarrow> 'w \<Rightarrow> 'w"
  ioutil_ReadFile :: "string \<Rightarrow> 'w \<Rightarrow> (err + string) \<times> 'w"
  ddlHandle_ExecuteDDL :: "string \<Rightarrow> string \<Rightarrow> 'w \<Rightarrow> err option \<times> 'w"
  ddlHandle_ExecuteHistoryDDLs :: "Job list \<Rightarrow> 'w \<Rightarrow> err option \<times> 'w"
  flags_NewURLsValue :: "string \<Rightarrow> 'w \<Rightarrow> (err + URLsValue) \<times> 'w"
  store_Register :: "string \<Rightarrow> 'w \<Rightarrow> err option \<times> 'w"
  store_New :: "string \<Rightarrow> 'w \<Rightarrow> (err + Storage) \<times> 'w"
  store_UnRegister :: "string \<Rightarrow> 'w \<Rightarrow> 'w"
  tiStore_Close :: "Storage \<Rightarrow> 'w \<Rightarrow> 'w"
  tiStore_CurrentVersion :: "Storage \<Rightarrow> 'w \<Rightarrow> (err + Version) \<times> 'w"
  tiStore_GetSnapshot :: "Storage \<Rightarrow> Version \<Rightarrow> 'w \<Rightarrow> (err + Snapshot) \<times> 'w"
  snapMeta_GetAllHistoryDDLJobs :: "Meta \<Rightarrow> 'w \<Rightarrow> (err + Job list) \<times> 'w"

subsection \<open>strings.Split and sort.Slice\<close>

text \<open>
  \<^verbatim>\<open>strings.Split(s, sep)\<close> for a separator of one byte: the pieces of \<open>s\<close> between
  the separators, one more than there are separators, so the empty string gives one
  empty piece.
\<close>

fun strings_Split :: "string \<Rightarrow> char \<Rightarrow> string list" where
  "strings_Split [] sep = [[]]"
| "strings_Split (c # cs) sep =
     (if c = sep then [] # strings_Split cs sep
      else (case strings_Split cs sep of
              [] \<Rightarrow> [[c]]
            | l # ls \<Rightarrow> (c # l) # ls))"

definition newline :: char where
  "newline = CHR 0x0A"

text \<open>
  \<^verbatim>\<open>sort.Slice(allJobs, less)\<close> with \<^verbatim>\<open>less\<close> comparing
  \<^verbatim>\<open>BinlogInfo.SchemaVersion\<close> as \<^verbatim>\<open>int64\<close>: the jobs in ascending order of their
  schema version. Go leaves the order of jobs of equal version open; here they keep their
  order.
\<close>

definition version_of :: "Job \<Rightarrow> int" where
  "version_of job = sint (SchemaVersion (BinlogInfo job))"

definition sort_Slice :: "Job list \<Rightarrow> Job list" where
  "sort_Slice allJobs = sort_key version_of allJobs"

subsection \<open>createTiStore and getSnapshotMeta\<close>

definition createTiStore :: "('w, 'f) env \<Rightarrow> string \<Rightarrow> 'w state \<Rightarrow> (err + Storage) \<times> 'w state" where
  "createTiStore env urls st =
     (case call (flags_NewURLsValue env urls) (\<lambda>r. Ev_NewURLsValue urls (errOf r)) st of
        (Inl e, st1) \<Rightarrow> (Inl (Trace e), st1)
      | (Inr urlv, st1) \<Rightarrow>
          (case call (store_Register env ''tikv'') (Ev_store_Register ''tikv'') st1 of
             (Some e, st2) \<Rightarrow> (Inl (Trace e), st2)
           | (None, st2) \<Rightarrow>
               (let tiPath = ''tikv://'' @ HostString urlv @ ''?disableGC=true'' in
                case call (store_New env tiPath) (\<lambda>r. Ev_store_New tiPath (errOf r)) st2 of
                  (Inl e, st3) \<Rightarrow> (Inl (Trace e), st3)
                | (Inr tiStore, st3) \<Rightarrow> (Inr tiStore, st3))))"

definition getSnapshotMeta :: "('w, 'f) env \<Rightarrow> Storage \<Rightarrow> 'w state \<Rightarrow> (err + Meta) \<times> 'w state" where
  "getSnapshotMeta env tiStore st =
     (case call (tiStore_CurrentVersion env tiStore) (\<lambda>r. Ev_CurrentVersion (errOf r)) st of
        (Inl e, st1) \<Rightarrow> (Inl (Trace e), st1)
      | (Inr version, st1) \<Rightarrow>
          (case call (tiStore_GetSnapshot env tiStore version) (\<lambda>r. Ev_GetSnapshot (errOf r)) st1 of
             (Inl e, st2) \<Rightarrow> (Inl (Trace e), st2)
           | (Inr snapshot, st2) \<Rightarrow> (Inr (NewSnapshotMeta snapshot), st2)))"

subsection \<open>loadHistoryDDLJobs\<close>

text \<open>
  The loop of lines 164 to 170 keeps the jobs whose \<^verbatim>\<open>int64(FinishedTS)\<close> is below
  \<^verbatim>\<open>beginTS\<close>, in their order. The deferred function of lines 143 to 146 runs on every
  return after the store was created.
\<close>

fun selectJobs :: "Job list \<Rightarrow> int64 \<Rightarrow> Job list \<Rightarrow> Job list" where
  "selectJobs [] beginTS jobs = jobs"
| "selectJobs (job # allJobs) beginTS jobs =
     (if int64_less (int64_of_uint64 (FinishedTS (BinlogInfo job))) beginTS
      then selectJobs allJobs beginTS (jobs @ [job])
      else selectJobs allJobs beginTS jobs)"

definition loadHistoryDDLJobs ::
  "('w, 'f) env \<Rightarrow> Config \<Rightarrow> int64 \<Rightarrow> 'w state \<Rightarrow> (err + Job list) \<times> 'w state" where
  "loadHistoryDDLJobs env cfg beginTS st =
     (if length (PDURLs cfg) = 0 then (Inr [], st)
      else
        (case createTiStore env (PDURLs cfg) st of
           (Inl e, st1) \<Rightarrow> (Inl (Trace e), st1)
         | (Inr tiStore, st1) \<Rightarrow>
             (case
                (case getSnapshotMeta env tiStore st1 of
                   (Inl e, st2) \<Rightarrow> (Inl (Trace e), st2)
                 | (Inr snapMeta, st2) \<Rightarrow>
                     (case call (snapMeta_GetAllHistoryDDLJobs env snapMeta) Ev_GetAllHistoryDDLJobs st2 of
                        (Inl e, st3) \<Rightarrow> (Inl (Trace e), st3)
                      | (Inr allJobs, st3) \<Rightarrow> (Inr (selectJobs (sort_Slice allJobs) beginTS []), st3)))
              of (r, st4) \<Rightarrow>
                (r, call_void (store_UnRegister env ''tikv'') (Ev_store_UnRegister ''tikv'')
                      (call_void (tiStore_Close env tiStore) Ev_tiStore_Close st4)))))"

subsection \<open>LoadBaseSchema and ExecuteHistoryDDLs\<close>

definition LoadBaseSchema :: "('w, 'f) env \<Rightarrow> Config \<Rightarrow> 'w state \<Rightarrow> (err + string list) \<times> 'w state" where
  "LoadBaseSchema env cfg st =
     (case call (ioutil_ReadFile env (schemaFile cfg)) (Ev_ReadFile (schemaFile cfg)) st of
        (Inl e, st1) \<Rightarrow> (Inl e, st1)
      | (Inr content, st1) \<Rightarrow> (Inr (strings_Split content newline), st1))"

text \<open>The loop of lines 109 to 114: it returns at the first DDL that fails.\<close>

fun executeDDLs :: "('w, 'f) env \<Rightarrow> string list \<Rightarrow> 'w state \<Rightarrow> err option \<times> 'w state" where
  "executeDDLs env [] st = (None, st)"
| "executeDDLs env (ddl # ddls) st =
     (case call (ddlHandle_ExecuteDDL env '''' ddl) (Ev_ExecuteDDL '''' ddl) st of
        (Some e, st1) \<Rightarrow> (Some e, st1)
      | (None, st1) \<Rightarrow> executeDDLs env ddls st1)"

definition ExecuteHistoryDDLs ::
  "('w, 'f) env \<Rightarrow> Config \<Rightarrow> int64 \<Rightarrow> 'w state \<Rightarrow> err option \<times> 'w state" where
  "ExecuteHistoryDDLs env cfg beginTS st =
     (case
        (if length (schemaFile cfg) \<noteq> 0 then
           (case LoadBaseSchema env cfg (emit (Enter_ExecuteHistoryDDLs beginTS) st) of
              (Inl e, st1) \<Rightarrow> (Some e, st1)
            | (Inr ddls, st1) \<Rightarrow> executeDDLs env ddls st1)
         else
           (case loadHistoryDDLJobs env cfg beginTS (emit (Enter_ExecuteHistoryDDLs beginTS) st) of
              (Inl e, st1) \<Rightarrow> (Some (Annotate e ''load history ddls''), st1)
            | (Inr historyDDLs, st1) \<Rightarrow>
                (case call (ddlHandle_ExecuteHistoryDDLs env historyDDLs)
                        (Ev_ddl_ExecuteHistoryDDLs historyDDLs) st1 of
                   (Some e, st2) \<Rightarrow> (Some (Trace e), st2)
                 | (None, st2) \<Rightarrow> (None, st2))))
      of (r, st3) \<Rightarrow> (r, emit (Exit_ExecuteHistoryDDLs r) st3))"

subsection \<open>Process\<close>

text \<open>
  Lines 67 to 85, the part of \<^verbatim>\<open>Process\<close> that runs under the deferred
  \<^verbatim>\<open>merge.Close\<close>.
\<close>

definition Process_merge ::
  "('w, 'f) env \<Rightarrow> Config \<Rightarrow> Merge \<Rightarrow> int64 \<Rightarrow> 'w state \<Rightarrow> err option \<times> 'w state" where
  "Process_merge env cfg merge firstBinlogTs st =
     (case ExecuteHistoryDDLs env cfg firstBinlogTs st of
        (Some e, st1) \<Rightarrow> (Some (Annotate e ''load history ddls''), st1)
      | (None, st1) \<Rightarrow>
          (case call (merge_Map env merge) Ev_Map st1 of
             (Some e, st2) \<Rightarrow> (Some (Trace e), st2)
           | (None, st2) \<Rightarrow>
               (case ExecuteHistoryDDLs env cfg firstBinlogTs st2 of
                  (Some e, st3) \<Rightarrow> (Some (Annotate e ''load history ddls''), st3)
                | (None, st3) \<Rightarrow>
                    (case call (merge_Reduce env merge) Ev_Reduce st3 of
                       (Some e, st4) \<Rightarrow> (Some (Trace e), st4)
                     | (None, st4) \<Rightarrow> (None, st4)))))"

text \<open>
  Lines 53 to 59: the begin timestamp is \<^verbatim>\<open>StartTSO\<close>, or, when that is 0, the commit
  timestamp of the first binlog of \<^verbatim>\<open>files[0]\<close>; indexing an empty slice panics.
\<close>

definition firstBinlogTs_of ::
  "('w, 'f) env \<Rightarrow> Config \<Rightarrow> 'f list \<Rightarrow> 'w state \<Rightarrow> (outcome + int64) \<times> 'w state" where
  "firstBinlogTs_of env cfg files st =
     (if StartTSO cfg = 0 then
        (case files of
           [] \<Rightarrow> (Inl (Panic ''index out of range''), st)
         | f # _ \<Rightarrow>
             (case call (getFirstBinlogCommitTSAndFileSize env f)
                     (\<lambda>r. Ev_getFirstBinlogCommitTSAndFileSize (errOf r)) st of
                (Inl e, st1) \<Rightarrow>
                  (Inl (Return (Some (Annotate e ''get first binlog commit ts failed''))), st1)
              | (Inr (ts, _), st1) \<Rightarrow> (Inr ts, st1)))
      else (Inr (StartTSO cfg), st))"

definition Process :: "('w, 'f) env \<Rightarrow> Config \<Rightarrow> 'w state \<Rightarrow> outcome \<times> 'w state" where
  "Process env cfg st =
     (case call (searchFiles env (Dir cfg)) (\<lambda>r. Ev_searchFiles (Dir cfg) (errOf r)) st of
        (Inl e, st1) \<Rightarrow> (Return (Some (Annotate e ''searchFiles failed'')), st1)
      | (Inr files, st1) \<Rightarrow>
          (case call (filterFiles env files (StartTSO cfg) (StopTSO cfg))
                  (\<lambda>r. Ev_filterFiles (StartTSO cfg) (StopTSO cfg) (errOf r)) st1 of
             (Inl e, st2) \<Rightarrow> (Return (Some (Annotate e ''filterFiles failed'')), st2)
           | (Inr (files', fileSize), st2) \<Rightarrow>
               (case firstBinlogTs_of env cfg files' st2 of
                  (Inl out, st3) \<Rightarrow> (out, st3)
                | (Inr firstBinlogTs, st3) \<Rightarrow>
                    (case call (NewMerge env files' fileSize) (\<lambda>r. Ev_NewMerge (errOf r)) st3 of
                       (Inl e, st4) \<Rightarrow> (Return (Some (Trace e)), st4)
                     | (Inr merge, st4) \<Rightarrow>
                         (case Process_merge env cfg merge firstBinlogTs st4 of
                            (r, st5) \<Rightarrow>
                              (Return r,
                               call_void (merge_Close env merge (reserveTempDir cfg))
                                 (Ev_Close (reserveTempDir cfg)) st5))))))"

subsection \<open>Reading a trace\<close>

text \<open>An event whose call returned an error.\<close>

fun failed :: "event \<Rightarrow> bool" where
  "failed (Ev_searchFiles d r) = (r \<noteq> None)"
| "failed (Ev_filterFiles a b r) = (r \<noteq> None)"
| "failed (Ev_getFirstBinlogCommitTSAndFileSize r) = (r \<noteq> None)"
| "failed (Ev_NewMerge r) = (r \<noteq> None)"
| "failed (Ev_Map r) = (r \<noteq> None)"
| "failed (Ev_Reduce r) = (r \<noteq> None)"
| "failed (Ev_Close b) = False"
| "failed (Ev_ReadFile p r) = (errOf r \<noteq> None)"
| "failed (Ev_ExecuteDDL s d r) = (r \<noteq> None)"
| "failed (Ev_ddl_ExecuteHistoryDDLs js r) = (r \<noteq> None)"
| "failed (Ev_NewURLsValue u r) = (r \<noteq> None)"
| "failed (Ev_store_Register n r) = (r \<noteq> None)"
| "failed (Ev_store_New p r) = (r \<noteq> None)"
| "failed (Ev_CurrentVersion r) = (r \<noteq> None)"
| "failed (Ev_GetSnapshot r) = (r \<noteq> None)"
| "failed (Ev_GetAllHistoryDDLJobs r) = (errOf r \<noteq> None)"
| "failed Ev_tiStore_Close = False"
| "failed (Ev_store_UnRegister n) = False"
| "failed (Enter_ExecuteHistoryDDLs ts) = False"
| "failed (Exit_ExecuteHistoryDDLs r) = (r \<noteq> None)"

text \<open>The calls that reach the live history source, the TiKV store behind \<^verbatim>\<open>PDURLs\<close>.\<close>

fun history_event :: "event \<Rightarrow> bool" where
  "history_event (Ev_NewURLsValue u r) = True"
| "history_event (Ev_store_Register n r) = True"
| "history_event (Ev_store_New p r) = True"
| "history_event (Ev_CurrentVersion r) = True"
| "history_event (Ev_GetSnapshot r) = True"
| "history_event (Ev_GetAllHistoryDDLJobs r) = True"
| "history_event Ev_tiStore_Close = True"
| "history_event (Ev_store_UnRegister n) = True"
| "history_event e = False"

text \<open>The calls that \<^verbatim>\<open>PITR.ExecuteHistoryDDLs\<close> can make.\<close>

fun inner_event :: "event \<Rightarrow> bool" where
  "inner_event (Ev_ReadFile p r) = True"
| "inner_event (Ev_ExecuteDDL s d r) = True"
| "inner_event (Ev_ddl_ExecuteHistoryDDLs js r) = True"
| "inner_event e = history_event e"

text \<open>The events of the base schema file: reading it, and executing one of its lines.\<close>

fun file_event :: "event \<Rightarrow> bool" where
  "file_event (Ev_ReadFile p r) = True"
| "file_event (Ev_ExecuteDDL s d r) = True"
| "file_event e = False"

text \<open>The DDL statements handed to \<^verbatim>\<open>ddlHandle.ExecuteDDL\<close>, in the order of the calls.\<close>

fun submitted :: "event list \<Rightarrow> string list" where
  "submitted [] = []"
| "submitted (Ev_ExecuteDDL s d r # evs) = d # submitted evs"
| "submitted (ev # evs) = submitted evs"

abbreviation ok_DDL :: "string \<Rightarrow> event" where
  "ok_DDL ddl \<equiv> Ev_ExecuteDDL '''' ddl None"

text \<open>
  The steps of \<^verbatim>\<open>Process\<close> before \<^verbatim>\<open>Reduce\<close>: an event of one of them that
  returned an error.
\<close>

fun step_failed :: "event \<Rightarrow> bool" where
  "step_failed (Ev_searchFiles d r) = (r \<noteq> None)"
| "step_failed (Ev_filterFiles a b r) = (r \<noteq> None)"
| "step_failed (Ev_getFirstBinlogCommitTSAndFileSize r) = (r \<noteq> None)"
| "step_failed (Ev_NewMerge r) = (r \<noteq> None)"
| "step_failed (Exit_ExecuteHistoryDDLs r) = (r \<noteq> None)"
| "step_failed (Ev_Map r) = (r \<noteq> None)"
| "step_failed e = False"

fun is_Reduce :: "event \<Rightarrow> bool" where
  "is_Reduce (Ev_Reduce r) = True"
| "is_Reduce e = False"

fun is_Close :: "event \<Rightarrow> bool" where
  "is_Close (Ev_Close b) = True"
| "is_Close e = False"

fun is_Enter :: "event \<Rightarrow> bool" where
  "is_Enter (Enter_ExecuteHistoryDDLs ts) = True"
| "is_Enter e = False"

text \<open>The test of line 165, and the two readings of \<^verbatim>\<open>FinishedTS\<close>.\<close>

definition finished_before :: "int64 \<Rightarrow> Job \<Rightarrow> bool" where
  "finished_before beginTS job = int64_less (int64_of_uint64 (FinishedTS (BinlogInfo job))) beginTS"

definition FinishedTS_int64 :: "Job \<Rightarrow> int" where
  "FinishedTS_int64 job = sint (int64_of_uint64 (FinishedTS (BinlogInfo job)))"

definition FinishedTS_uint64 :: "Job \<Rightarrow> int" where
  "FinishedTS_uint64 job = uint (FinishedTS (BinlogInfo job))"

fun is_Map :: "event \<Rightarrow> bool" where
  "is_Map (Ev_Map r) = True"
| "is_Map e = False"

text \<open>
  The events of lines 43 to 59 when nothing fails: the search, the selection and, when
  \<^verbatim>\<open>StartTSO\<close> is 0, the read of the first commit timestamp.
\<close>

definition selection :: "Config \<Rightarrow> event list" where
  "selection cfg =
     [Ev_searchFiles (Dir cfg) None, Ev_filterFiles (StartTSO cfg) (StopTSO cfg) None]
     @ (if StartTSO cfg = 0 then [Ev_getFirstBinlogCommitTSAndFileSize None] else [])"

subsection \<open>File selection, from the specification\<close>

text \<open>
  Modelled from the spec: the elements that \<^verbatim>\<open>searchFiles\<close> returns and
  \<^verbatim>\<open>filterFiles\<close> selects from; their type is not in \<^verbatim>\<open>pitr.go\<close>. Section 6, Binlog
  File Provider: each candidate file comes with its path, its least and greatest commit
  timestamp and its size in bytes.
\<close>

record binlogFile =
  path :: string
  minCommitTs :: int64
  maxCommitTs :: int64
  byteSize :: int64

text \<open>
  Modelled from the spec: the error of \<^verbatim>\<open>filterFiles\<close> on an empty selection, which is
  not in \<^verbatim>\<open>pitr.go\<close>. Sections 4.1 and 7: \<open>InputError(NoInputFiles)\<close>.
\<close>

definition NoInputFiles :: err where
  "NoInputFiles = Err ''NoInputFiles''"

text \<open>
  Modelled from the spec: the test of \<^verbatim>\<open>filterFiles\<close> on one file, which is not in
  \<^verbatim>\<open>pitr.go\<close>. Section 4.1: a file is discarded when its entire range lies outside the
  window, that is, when it ends before \<open>startTs\<close>, or \<open>stopTs\<close> is not 0 and it begins
  after \<open>stopTs\<close>; \<open>retained\<close> is the list of the files that are kept.
\<close>

definition overlaps_window :: "binlogFile \<Rightarrow> int64 \<Rightarrow> int64 \<Rightarrow> bool" where
  "overlaps_window f startTs stopTs =
     (int64_le startTs (maxCommitTs f) \<and> (stopTs = 0 \<or> int64_le (minCommitTs f) stopTs))"

definition retained :: "binlogFile list \<Rightarrow> int64 \<Rightarrow> int64 \<Rightarrow> binlogFile list" where
  "retained files startTs stopTs = filter (\<lambda>f. overlaps_window f startTs stopTs) files"

text \<open>
  Modelled from the spec: \<^verbatim>\<open>filterFiles\<close>, which is not in \<^verbatim>\<open>pitr.go\<close>. Section 4.1:
  discard the files whose entire range lies outside the time window, keep a file that
  overlaps the boundary in full, return the retained files and their total size, and fail
  with \<open>NoInputFiles\<close> if the retained set is empty.
\<close>

definition filterFiles_spec :: "binlogFile list \<Rightarrow> int64 \<Rightarrow> int64 \<Rightarrow> err + binlogFile list \<times> int64" where
  "filterFiles_spec files startTs stopTs =
     (if retained files startTs stopTs = [] then Inl NoInputFiles
      else Inr (retained files startTs stopTs, sum_list (map byteSize (retained files startTs stopTs))))"

subsection \<open>The executor of history DDL jobs, from the specification\<close>

text \<open>
  Modelled from the spec: \<^verbatim>\<open>ddlHandle.ExecuteHistoryDDLs\<close>, which is not in
  \<^verbatim>\<open>pitr.go\<close>. Section 6, DDL Executor: it applies a single DDL descriptor to the schema
  state and fails if the descriptor is malformed or conflicts with the state, which is
  fatal to the run. So the jobs are applied one by one, in their order, by \<open>applyDDL\<close>,
  and the first failure ends the call.
\<close>

fun ExecuteHistoryDDLs_spec ::
  "(Job \<Rightarrow> 'w \<Rightarrow> err option \<times> 'w) \<Rightarrow> Job list \<Rightarrow> 'w \<Rightarrow> err option \<times> 'w" where
  "ExecuteHistoryDDLs_spec applyDDL [] w = (None, w)"
| "ExecuteHistoryDDLs_spec applyDDL (job # jobs) w =
     (case applyDDL job w of
        (Some e, w') \<Rightarrow> (Some e, w')
      | (None, w') \<Rightarrow> ExecuteHistoryDDLs_spec applyDDL jobs w')"

subsection \<open>A small world to run the functions in\<close>

text \<open>
  The state of this world is the list of the DDL statements applied so far. Every
  collaborator succeeds, except that \<^verbatim>\<open>ExecuteDDL\<close> rejects the statements of \<open>bad\<close>.
  The directory holds \<open>files\<close>, the schema file holds \<open>content\<close>, the history holds
  \<open>allJobs\<close>.
\<close>

definition demo_env :: "'f list \<Rightarrow> string \<Rightarrow> Job list \<Rightarrow> string list \<Rightarrow> (string list, 'f) env" where
  "demo_env files content allJobs bad =
     \<lparr>searchFiles = (\<lambda>dir w. (Inr files, w)),
      filterFiles = (\<lambda>fs startTs stopTs w. (Inr (fs, 0), w)),
      getFirstBinlogCommitTSAndFileSize = (\<lambda>f w. (Inr (40, 0), w)),
      NewMerge = (\<lambda>fs fileSize w. (Inr (Merge 0), w)),
      merge_Map = (\<lambda>m w. (None, w)),
      merge_Reduce = (\<lambda>m w. (None, w)),
      merge_Close = (\<lambda>m reserve w. w),
      ioutil_ReadFile = (\<lambda>name w. (Inr content, w)),
      ddlHandle_ExecuteDDL = (\<lambda>schema ddl w.
         if ddl \<in> set bad then (Some (Err ''DDLApplyError''), w) else (None, w @ [ddl])),
      ddlHandle_ExecuteHistoryDDLs = (\<lambda>jobs w. (None, w @ map Query jobs)),
      flags_NewURLsValue = (\<lambda>urls w. (Inr (URLsValue urls), w)),
      store_Register = (\<lambda>name w. (None, w)),
      store_New = (\<lambda>tiPath w. (Inr (Storage 0), w)),
      store_UnRegister = (\<lambda>name w. w),
      tiStore_Close = (\<lambda>tiStore w. w),
      tiStore_CurrentVersion = (\<lambda>tiStore w. (Inr (Version 0), w)),
      tiStore_GetSnapshot = (\<lambda>tiStore version w. (Inr (Snapshot 0), w)),
      snapMeta_GetAllHistoryDDLJobs = (\<lambda>snapMeta w. (Inr allJobs, w))\<rparr>"

text \<open>A configuration with a base schema file, and one with PD URLs and no schema file.\<close>

definition file_cfg :: Config where
  "file_cfg = \<lparr>Dir = ''binlogs'', StartTSO = 100, StopTSO = 0, PDURLs = '''',
     schemaFile = ''schema.sql'', reserveTempDir = False\<rparr>"

definition pd_cfg :: Config where
  "pd_cfg = \<lparr>Dir = ''binlogs'', StartTSO = 0, StopTSO = 0, PDURLs = ''pd:2379'',
     schemaFile = '''', reserveTempDir = True\<rparr>"

text \<open>A history job with the given id, schema version and finished timestamp.\<close>

definition job :: "int64 \<Rightarrow> int64 \<Rightarrow> uint64 \<Rightarrow> Job" where
  "job i v f = \<lparr>ID = i, Query = ''ddl'', BinlogInfo = \<lparr>SchemaVersion = v, FinishedTS = f\<rparr>\<rparr>"

text \<open>One binlog file name, and a schema file of two statements, each ended by a newline.\<close>

definition demo_files :: "string list" where
  "demo_files = [''binlog-0001'']"

definition demo_schema :: string where
  "demo_schema = ''create t'' @ [newline] @ ''alter t'' @ [newline]"

text \<open>The demo world with a \<^verbatim>\<open>merge.Map\<close> that fails.\<close>

definition Map_fails :: "(string list, 'f) env \<Rightarrow> (string list, 'f) env" where
  "Map_fails env = env\<lparr>merge_Map := (\<lambda>m w. (Some (Err ''SegmentIOError''), w))\<rparr>"

text \<open>Two more schema files: two statements, and one statement ended by a newline.\<close>

definition two_statements :: string where
  "two_statements = ''create t'' @ [newline] @ ''alter t''"

definition one_statement :: string where
  "one_statement = ''create t'' @ [newline]"

text \<open>The demo world with the file selection of the specification.\<close>

definition selecting :: "(string list, binlogFile) env \<Rightarrow> (string list, binlogFile) env" where
  "selecting env =
     env\<lparr>filterFiles := (\<lambda>files startTs stopTs w. (filterFiles_spec files startTs stopTs, w))\<rparr>"

text \<open>
  A binlog file with commit timestamps from 60 to 90, a window that ends at 50 with
  \<^verbatim>\<open>StartTSO = 0\<close>, and a window that begins at 100 and is open above (scenario C of
  the specification).
\<close>

definition early_file :: binlogFile where
  "early_file = \<lparr>path = ''binlog-0001'', minCommitTs = 60, maxCommitTs = 90, byteSize = 1024\<rparr>"

definition open_cfg :: Config where
  "open_cfg = \<lparr>Dir = ''binlogs'', StartTSO = 0, StopTSO = 50, PDURLs = '''',
     schemaFile = ''schema.sql'', reserveTempDir = False\<rparr>"

definition late_cfg :: Config where
  "late_cfg = \<lparr>Dir = ''binlogs'', StartTSO = 100, StopTSO = 0, PDURLs = '''',
     schemaFile = ''schema.sql'', reserveTempDir = False\<rparr>"

text \<open>
  The demo world with the executor of the specification, which appends the statement of
  each job to the schema state; and a configuration with no schema file and no PD URLs.
\<close>

definition applying :: "(string list, 'f) env \<Rightarrow> (string list, 'f) env" where
  "applying env =
     env\<lparr>ddlHandle_ExecuteHistoryDDLs :=
           ExecuteHistoryDDLs_spec (\<lambda>job w. (None, w @ [Query job]))\<rparr>"

definition bare_cfg :: Config where
  "bare_cfg = \<lparr>Dir = ''binlogs'', StartTSO = 100, StopTSO = 0, PDURLs = '''',
     schemaFile = '''', reserveTempDir = False\<rparr>"

section \<open>Properties\<close>

subsection \<open>Traces of the functions\<close>

lemmas run_defs = call_def call_void_def emit_def

lemma createTiStore_trace:
  assumes "createTiStore env urls st = (r, st')"
  shows "\<exists>tr. trace st' = trace st @ tr \<and> (\<forall>e\<in>set tr. history_event e \<and> \<not> (\<exists>x. e = Ev_GetAllHistoryDDLJobs x))
     \<and> ((\<exists>e\<in>set tr. failed e) \<longleftrightarrow> errOf r \<noteq> None)"
  using assms unfolding createTiStore_def run_defs
  by (auto split: prod.splits sum.splits option.splits simp: Let_def)

lemma getSnapshotMeta_trace:
  assumes "getSnapshotMeta env tiStore st = (r, st')"
  shows "\<exists>tr. trace st' = trace st @ tr \<and> (\<forall>e\<in>set tr. history_event e \<and> \<not> (\<exists>x. e = Ev_GetAllHistoryDDLJobs x))
     \<and> ((\<exists>e\<in>set tr. failed e) \<longleftrightarrow> errOf r \<noteq> None)"
  using assms unfolding getSnapshotMeta_def run_defs
  by (auto split: prod.splits sum.splits option.splits simp: Let_def)


lemma selectJobs_filter: "selectJobs allJobs beginTS jobs = jobs @ filter (finished_before beginTS) allJobs"
  by (induction allJobs arbitrary: jobs) (simp_all add: finished_before_def)

lemma loadHistoryDDLJobs_trace:
  assumes "loadHistoryDDLJobs env cfg beginTS st = (r, st')"
  shows "\<exists>tr. trace st' = trace st @ tr \<and> (\<forall>e\<in>set tr. history_event e)
     \<and> ((\<exists>e\<in>set tr. failed e) \<longleftrightarrow> errOf r \<noteq> None)
     \<and> (\<forall>x. Ev_GetAllHistoryDDLJobs x \<in> set tr \<longrightarrow>
            r = (case x of Inl e \<Rightarrow> Inl (Trace e)
                 | Inr allJobs \<Rightarrow> Inr (filter (finished_before beginTS) (sort_Slice allJobs))))
     \<and> (\<forall>jobs. r = Inr jobs \<longrightarrow> PDURLs cfg \<noteq> [] \<longrightarrow> (\<exists>allJobs. Ev_GetAllHistoryDDLJobs (Inr allJobs) \<in> set tr))"
  using assms unfolding loadHistoryDDLJobs_def createTiStore_def getSnapshotMeta_def run_defs
  by (auto split: prod.splits sum.splits option.splits if_splits simp: Let_def selectJobs_filter)

lemma loadHistoryDDLJobs_no_PD:
  "PDURLs cfg = [] \<Longrightarrow> loadHistoryDDLJobs env cfg beginTS st = (Inr [], st)"
  by (simp add: loadHistoryDDLJobs_def)


lemma history_inner: "history_event e \<Longrightarrow> inner_event e"
  by (cases e) simp_all

lemma executeDDLs_None:
  "executeDDLs env ddls st = (None, st') \<Longrightarrow> trace st' = trace st @ map ok_DDL ddls"
proof (induction ddls arbitrary: st)
  case Nil
  then show ?case by simp
next
  case (Cons ddl ddls)
  then show ?case
    by (auto simp: run_defs split: prod.splits option.splits)
qed

lemma executeDDLs_Some:
  "executeDDLs env ddls st = (Some e, st') \<Longrightarrow>
     \<exists>k<length ddls. trace st' = trace st @ map ok_DDL (take k ddls) @ [Ev_ExecuteDDL '''' (ddls ! k) (Some e)]"
proof (induction ddls arbitrary: st)
  case Nil
  then show ?case by simp
next
  case (Cons ddl ddls)
  obtain r0 st0 where c: "call (ddlHandle_ExecuteDDL env '''' ddl) (Ev_ExecuteDDL '''' ddl) st = (r0, st0)"
    by (cases "call (ddlHandle_ExecuteDDL env '''' ddl) (Ev_ExecuteDDL '''' ddl) st")
  then have t0: "trace st0 = trace st @ [Ev_ExecuteDDL '''' ddl r0]"
    by (auto simp: run_defs split: prod.splits)
  show ?case
  proof (cases r0)
    case None
    with Cons.prems c have "executeDDLs env ddls st0 = (Some e, st')" by simp
    from Cons.IH [OF this] obtain k where k: "k < length ddls"
      "trace st' = trace st0 @ map ok_DDL (take k ddls) @ [Ev_ExecuteDDL '''' (ddls ! k) (Some e)]"
      by blast
    with t0 None have "Suc k < length (ddl # ddls) \<and>
       trace st' = trace st @ map ok_DDL (take (Suc k) (ddl # ddls)) @ [Ev_ExecuteDDL '''' ((ddl # ddls) ! Suc k) (Some e)]"
      by simp
    then show ?thesis by blast
  next
    case (Some e')
    with Cons.prems c have "e' = e" "st' = st0" by simp_all
    with t0 Some have "0 < length (ddl # ddls) \<and>
       trace st' = trace st @ map ok_DDL (take 0 (ddl # ddls)) @ [Ev_ExecuteDDL '''' ((ddl # ddls) ! 0) (Some e)]"
      by simp
    then show ?thesis by blast
  qed
qed

lemma ExecuteHistoryDDLs_file:
  assumes "schemaFile cfg \<noteq> []" and "ExecuteHistoryDDLs env cfg ts st = (r, st')"
  shows "(\<exists>e. r = Some e \<and> fst (ioutil_ReadFile env (schemaFile cfg) (world st)) = Inl e \<and> trace st' = trace st @
             [Enter_ExecuteHistoryDDLs ts, Ev_ReadFile (schemaFile cfg) (Inl e), Exit_ExecuteHistoryDDLs r])
       \<or> (\<exists>content. r = None \<and> fst (ioutil_ReadFile env (schemaFile cfg) (world st)) = Inr content \<and> trace st' = trace st @
             [Enter_ExecuteHistoryDDLs ts, Ev_ReadFile (schemaFile cfg) (Inr content)]
             @ map ok_DDL (strings_Split content newline) @ [Exit_ExecuteHistoryDDLs r])
       \<or> (\<exists>content k e. k < length (strings_Split content newline) \<and> r = Some e
             \<and> fst (ioutil_ReadFile env (schemaFile cfg) (world st)) = Inr content \<and> trace st' = trace st @
             [Enter_ExecuteHistoryDDLs ts, Ev_ReadFile (schemaFile cfg) (Inr content)]
             @ map ok_DDL (take k (strings_Split content newline))
             @ [Ev_ExecuteDDL '''' (strings_Split content newline ! k) (Some e), Exit_ExecuteHistoryDDLs r])"
proof -
  obtain rc st1 where l: "LoadBaseSchema env cfg (emit (Enter_ExecuteHistoryDDLs ts) st) = (rc, st1)"
    by (cases "LoadBaseSchema env cfg (emit (Enter_ExecuteHistoryDDLs ts) st)")
  show ?thesis
  proof (cases rc)
    case (Inl e)
    with l assms show ?thesis
      by (auto simp: ExecuteHistoryDDLs_def LoadBaseSchema_def run_defs split: prod.splits sum.splits)
  next
    case (Inr ddls)
    with l obtain content where
      t1: "trace st1 = trace st @ [Enter_ExecuteHistoryDDLs ts, Ev_ReadFile (schemaFile cfg) (Inr content)]"
      and d: "ddls = strings_Split content newline"
      and c: "fst (ioutil_ReadFile env (schemaFile cfg) (world st)) = Inr content"
      by (auto simp: LoadBaseSchema_def run_defs split: prod.splits sum.splits)
    obtain st2 where x: "executeDDLs env ddls st1 = (r, st2)" and s: "st' = emit (Exit_ExecuteHistoryDDLs r) st2"
      using assms l Inr by (auto simp: ExecuteHistoryDDLs_def split: prod.splits)
    show ?thesis
    proof (cases r)
      case None
      with x have "trace st2 = trace st1 @ map ok_DDL ddls" by (simp add: executeDDLs_None)
      with t1 d c s None show ?thesis by (auto simp: emit_def)
    next
      case (Some e)
      with x obtain k where "k < length ddls"
        "trace st2 = trace st1 @ map ok_DDL (take k ddls) @ [Ev_ExecuteDDL '''' (ddls ! k) (Some e)]"
        using executeDDLs_Some by blast
      with t1 d c s Some show ?thesis by (auto simp: emit_def)
    qed
  qed
qed

lemma ExecuteHistoryDDLs_history:
  assumes "schemaFile cfg = []" and "ExecuteHistoryDDLs env cfg ts st = (r, st')"
  shows "\<exists>rl st1 tr. loadHistoryDDLJobs env cfg ts (emit (Enter_ExecuteHistoryDDLs ts) st) = (rl, st1)
       \<and> trace st1 = trace st @ Enter_ExecuteHistoryDDLs ts # tr
       \<and> (case rl of
            Inl e \<Rightarrow> r = Some (Annotate e ''load history ddls'')
                  \<and> trace st' = trace st @ Enter_ExecuteHistoryDDLs ts # tr @ [Exit_ExecuteHistoryDDLs r]
          | Inr jobs \<Rightarrow> \<exists>rx. r = map_option Trace rx
                  \<and> trace st' = trace st @ Enter_ExecuteHistoryDDLs ts # tr
                        @ [Ev_ddl_ExecuteHistoryDDLs jobs rx, Exit_ExecuteHistoryDDLs r])"
proof -
  obtain rl st1 where l: "loadHistoryDDLJobs env cfg ts (emit (Enter_ExecuteHistoryDDLs ts) st) = (rl, st1)"
    by (cases "loadHistoryDDLJobs env cfg ts (emit (Enter_ExecuteHistoryDDLs ts) st)")
  from loadHistoryDDLJobs_trace [OF l] obtain tr where
    "trace st1 = trace st @ Enter_ExecuteHistoryDDLs ts # tr" by (auto simp: emit_def)
  with l assms show ?thesis
    by (cases rl) (auto simp: ExecuteHistoryDDLs_def run_defs split: prod.splits option.splits)
qed

lemma ExecuteHistoryDDLs_shape:
  assumes "ExecuteHistoryDDLs env cfg ts st = (r, st')"
  shows "\<exists>tr. trace st' = trace st @ Enter_ExecuteHistoryDDLs ts # tr @ [Exit_ExecuteHistoryDDLs r]
            \<and> (\<forall>e\<in>set tr. inner_event e) \<and> ((\<exists>e\<in>set tr. failed e) \<longleftrightarrow> r \<noteq> None)"
proof (cases "schemaFile cfg = []")
  case True
  from ExecuteHistoryDDLs_history [OF True assms] obtain rl st1 tr where
    l: "loadHistoryDDLJobs env cfg ts (emit (Enter_ExecuteHistoryDDLs ts) st) = (rl, st1)"
    and t: "trace st1 = trace st @ Enter_ExecuteHistoryDDLs ts # tr"
    and c: "(case rl of
            Inl e \<Rightarrow> r = Some (Annotate e ''load history ddls'')
                  \<and> trace st' = trace st @ Enter_ExecuteHistoryDDLs ts # tr @ [Exit_ExecuteHistoryDDLs r]
          | Inr jobs \<Rightarrow> \<exists>rx. r = map_option Trace rx
                  \<and> trace st' = trace st @ Enter_ExecuteHistoryDDLs ts # tr
                        @ [Ev_ddl_ExecuteHistoryDDLs jobs rx, Exit_ExecuteHistoryDDLs r])"
    by blast
  from loadHistoryDDLJobs_trace [OF l] t have h: "\<forall>e\<in>set tr. history_event e"
    and f: "(\<exists>e\<in>set tr. failed e) \<longleftrightarrow> errOf rl \<noteq> None"
    by (auto simp: emit_def)
  show ?thesis
  proof (cases rl)
    case (Inl e)
    with c h f show ?thesis by (intro exI [of _ tr]) (auto intro: history_inner)
  next
    case (Inr jobs)
    with c obtain rx where rx: "r = map_option Trace rx" and "trace st' = trace st @ Enter_ExecuteHistoryDDLs ts # (tr
                        @ [Ev_ddl_ExecuteHistoryDDLs jobs rx]) @ [Exit_ExecuteHistoryDDLs r]" by auto
    moreover have "\<forall>e\<in>set (tr @ [Ev_ddl_ExecuteHistoryDDLs jobs rx]). inner_event e"
      using h by (auto intro: history_inner)
    moreover have "(\<exists>e\<in>set (tr @ [Ev_ddl_ExecuteHistoryDDLs jobs rx]). failed e) \<longleftrightarrow> r \<noteq> None"
      using f Inr rx by auto
    ultimately show ?thesis by blast
  qed
next
  case False
  from ExecuteHistoryDDLs_file [OF False assms] show ?thesis
  proof (elim disjE exE conjE)
    fix e assume "r = Some e" "trace st' = trace st @
       [Enter_ExecuteHistoryDDLs ts, Ev_ReadFile (schemaFile cfg) (Inl e), Exit_ExecuteHistoryDDLs r]"
    then show ?thesis by (intro exI [of _ "[Ev_ReadFile (schemaFile cfg) (Inl e)]"]) simp
  next
    fix content assume "r = None" "trace st' = trace st @
             [Enter_ExecuteHistoryDDLs ts, Ev_ReadFile (schemaFile cfg) (Inr content)]
             @ map ok_DDL (strings_Split content newline) @ [Exit_ExecuteHistoryDDLs r]"
    then show ?thesis
      by (intro exI [of _ "Ev_ReadFile (schemaFile cfg) (Inr content) # map ok_DDL (strings_Split content newline)"]) auto
  next
    fix content k e assume "r = Some e" "trace st' = trace st @
             [Enter_ExecuteHistoryDDLs ts, Ev_ReadFile (schemaFile cfg) (Inr content)]
             @ map ok_DDL (take k (strings_Split content newline))
             @ [Ev_ExecuteDDL '''' (strings_Split content newline ! k) (Some e), Exit_ExecuteHistoryDDLs r]"
    then show ?thesis
      by (intro exI [of _ "Ev_ReadFile (schemaFile cfg) (Inr content) # map ok_DDL (take k (strings_Split content newline))
             @ [Ev_ExecuteDDL '''' (strings_Split content newline ! k) (Some e)]"]) auto
  qed
qed

lemma Process_merge_shape:
  assumes "Process_merge env cfg m ts st = (r, st')"
  shows "\<exists>t1. (\<forall>e\<in>set t1. inner_event e) \<and>
     ((\<exists>e. r = Some (Annotate e ''load history ddls'') \<and>
          trace st' = trace st @ Enter_ExecuteHistoryDDLs ts # t1 @ [Exit_ExecuteHistoryDDLs (Some e)])
    \<or> (\<exists>e. r = Some (Trace e) \<and> (\<forall>e\<in>set t1. \<not> failed e) \<and>
          trace st' = trace st @ Enter_ExecuteHistoryDDLs ts # t1 @ [Exit_ExecuteHistoryDDLs None, Ev_Map (Some e)])
    \<or> (\<exists>t2. (\<forall>e\<in>set t2. inner_event e) \<and> (\<forall>e\<in>set t1. \<not> failed e) \<and>
          ((\<exists>e. r = Some (Annotate e ''load history ddls'') \<and>
              trace st' = trace st @ Enter_ExecuteHistoryDDLs ts # t1
                @ [Exit_ExecuteHistoryDDLs None, Ev_Map None, Enter_ExecuteHistoryDDLs ts] @ t2
                @ [Exit_ExecuteHistoryDDLs (Some e)])
         \<or> (\<exists>rr. r = map_option Trace rr \<and> (\<forall>e\<in>set t2. \<not> failed e) \<and>
              trace st' = trace st @ Enter_ExecuteHistoryDDLs ts # t1
                @ [Exit_ExecuteHistoryDDLs None, Ev_Map None, Enter_ExecuteHistoryDDLs ts] @ t2
                @ [Exit_ExecuteHistoryDDLs None, Ev_Reduce rr]))))"
proof -
  obtain r1 st1 where h1: "ExecuteHistoryDDLs env cfg ts st = (r1, st1)"
    by (cases "ExecuteHistoryDDLs env cfg ts st")
  from ExecuteHistoryDDLs_shape [OF h1] obtain t1 where
    t1: "trace st1 = trace st @ Enter_ExecuteHistoryDDLs ts # t1 @ [Exit_ExecuteHistoryDDLs r1]"
    and i1: "\<forall>e\<in>set t1. inner_event e" and f1: "(\<exists>e\<in>set t1. failed e) \<longleftrightarrow> r1 \<noteq> None"
    by (elim exE conjE) (rule that)
  show ?thesis
  proof (cases r1)
    case (Some e)
    with h1 assms have "r = Some (Annotate e ''load history ddls'')" "st' = st1"
      by (simp_all add: Process_merge_def)
    with t1 i1 Some show ?thesis by blast
  next
    case None
    with f1 have q1: "\<forall>e\<in>set t1. \<not> failed e" by simp
    obtain r2 st2 where h2: "call (merge_Map env m) Ev_Map st1 = (r2, st2)"
      by (cases "call (merge_Map env m) Ev_Map st1")
    then have "trace st2 = trace st1 @ [Ev_Map r2]"
      by (auto simp: run_defs split: prod.splits)
    with t1 None have t2: "trace st2 = trace st @ Enter_ExecuteHistoryDDLs ts # t1 @ [Exit_ExecuteHistoryDDLs None, Ev_Map r2]"
      by simp
    show ?thesis
    proof (cases r2)
      case (Some e)
      with h1 h2 None assms have "r = Some (Trace e)" "st' = st2"
        by (simp_all add: Process_merge_def)
      with t2 Some have "r = Some (Trace e) \<and> (\<forall>e\<in>set t1. \<not> failed e) \<and>
          trace st' = trace st @ Enter_ExecuteHistoryDDLs ts # t1 @ [Exit_ExecuteHistoryDDLs None, Ev_Map (Some e)]"
        using q1 by simp
      with i1 show ?thesis by blast
    next
      case m: None
      obtain r3 st3 where h3: "ExecuteHistoryDDLs env cfg ts st2 = (r3, st3)"
        by (cases "ExecuteHistoryDDLs env cfg ts st2")
      from ExecuteHistoryDDLs_shape [OF h3] obtain t3 where
        t3': "trace st3 = trace st2 @ Enter_ExecuteHistoryDDLs ts # t3 @ [Exit_ExecuteHistoryDDLs r3]"
        and i3: "\<forall>e\<in>set t3. inner_event e" and f3: "(\<exists>e\<in>set t3. failed e) \<longleftrightarrow> r3 \<noteq> None"
    by (elim exE conjE) (rule that)
      from t3' t2 m have t3: "trace st3 = trace st @ Enter_ExecuteHistoryDDLs ts # t1
                @ [Exit_ExecuteHistoryDDLs None, Ev_Map None, Enter_ExecuteHistoryDDLs ts] @ t3
                @ [Exit_ExecuteHistoryDDLs r3]" by simp
      show ?thesis
      proof (cases r3)
        case (Some e)
        with h1 h2 h3 None m assms have "r = Some (Annotate e ''load history ddls'')" "st' = st3"
          by (simp_all add: Process_merge_def)
        with t3 Some have "r = Some (Annotate e ''load history ddls'') \<and>
              trace st' = trace st @ Enter_ExecuteHistoryDDLs ts # t1
                @ [Exit_ExecuteHistoryDDLs None, Ev_Map None, Enter_ExecuteHistoryDDLs ts] @ t3
                @ [Exit_ExecuteHistoryDDLs (Some e)]" by simp
        with i1 i3 q1 show ?thesis by blast
      next
        case d: None
        with f3 have q3: "\<forall>e\<in>set t3. \<not> failed e" by simp
        obtain r4 st4 where h4: "call (merge_Reduce env m) Ev_Reduce st3 = (r4, st4)"
          by (cases "call (merge_Reduce env m) Ev_Reduce st3")
        then have t4: "trace st4 = trace st3 @ [Ev_Reduce r4]"
          by (auto simp: run_defs split: prod.splits)
        from h1 h2 h3 h4 None m d assms have "r = map_option Trace r4" "st' = st4"
          by (auto simp: Process_merge_def split: option.splits)
        with t3 t4 d have "r = map_option Trace r4 \<and> (\<forall>e\<in>set t3. \<not> failed e) \<and>
              trace st' = trace st @ Enter_ExecuteHistoryDDLs ts # t1
                @ [Exit_ExecuteHistoryDDLs None, Ev_Map None, Enter_ExecuteHistoryDDLs ts] @ t3
                @ [Exit_ExecuteHistoryDDLs None, Ev_Reduce r4]" using q3 by simp
        with i1 i3 q1 show ?thesis by blast
      qed
    qed
  qed
qed

lemma Process_shape:
  assumes "Process env cfg st = (out, st')"
  shows "(\<exists>e. out = Return (Some (Annotate e ''searchFiles failed'')) \<and>
            trace st' = trace st @ [Ev_searchFiles (Dir cfg) (Some e)])
    \<or> (\<exists>e. out = Return (Some (Annotate e ''filterFiles failed'')) \<and>
            trace st' = trace st @ [Ev_searchFiles (Dir cfg) None, Ev_filterFiles (StartTSO cfg) (StopTSO cfg) (Some e)])
    \<or> (out = Panic ''index out of range'' \<and> StartTSO cfg = 0 \<and>
            trace st' = trace st @ [Ev_searchFiles (Dir cfg) None, Ev_filterFiles (StartTSO cfg) (StopTSO cfg) None])
    \<or> (\<exists>e. out = Return (Some (Annotate e ''get first binlog commit ts failed'')) \<and> StartTSO cfg = 0 \<and>
            trace st' = trace st @ [Ev_searchFiles (Dir cfg) None, Ev_filterFiles (StartTSO cfg) (StopTSO cfg) None,
               Ev_getFirstBinlogCommitTSAndFileSize (Some e)])
    \<or> (\<exists>e. out = Return (Some (Trace e)) \<and>
            trace st' = trace st @ selection cfg @ [Ev_NewMerge (Some e)])
    \<or> (\<exists>r m ts w4 st5. out = Return r
            \<and> Process_merge env cfg m ts \<lparr>world = w4, trace = trace st @ selection cfg @ [Ev_NewMerge None]\<rparr> = (r, st5)
            \<and> (StartTSO cfg \<noteq> 0 \<longrightarrow> ts = StartTSO cfg)
            \<and> trace st' = trace st5 @ [Ev_Close (reserveTempDir cfg)])"
  using assms unfolding Process_def firstBinlogTs_of_def run_defs selection_def
  by (auto split: prod.splits sum.splits option.splits if_splits list.splits) blast+


lemma Process_runs:
  assumes "Process env cfg st = (out, st')"
  shows "(\<exists>e. out = Return (Some (Annotate e ''searchFiles failed'')) \<and>
            trace st' = trace st @ [Ev_searchFiles (Dir cfg) (Some e)])
    \<or> (\<exists>e. out = Return (Some (Annotate e ''filterFiles failed'')) \<and>
            trace st' = trace st @ [Ev_searchFiles (Dir cfg) None, Ev_filterFiles (StartTSO cfg) (StopTSO cfg) (Some e)])
    \<or> (out = Panic ''index out of range'' \<and> StartTSO cfg = 0 \<and>
            trace st' = trace st @ [Ev_searchFiles (Dir cfg) None, Ev_filterFiles (StartTSO cfg) (StopTSO cfg) None])
    \<or> (\<exists>e. out = Return (Some (Annotate e ''get first binlog commit ts failed'')) \<and> StartTSO cfg = 0 \<and>
            trace st' = trace st @ [Ev_searchFiles (Dir cfg) None, Ev_filterFiles (StartTSO cfg) (StopTSO cfg) None,
               Ev_getFirstBinlogCommitTSAndFileSize (Some e)])
    \<or> (\<exists>e. out = Return (Some (Trace e)) \<and>
            trace st' = trace st @ selection cfg @ [Ev_NewMerge (Some e)])
    \<or> (\<exists>ts t1 e. (StartTSO cfg \<noteq> 0 \<longrightarrow> ts = StartTSO cfg) \<and> (\<forall>e\<in>set t1. inner_event e) \<and>
            out = Return (Some (Annotate e ''load history ddls'')) \<and>
            trace st' = trace st @ selection cfg @ [Ev_NewMerge None, Enter_ExecuteHistoryDDLs ts] @ t1
              @ [Exit_ExecuteHistoryDDLs (Some e), Ev_Close (reserveTempDir cfg)])
    \<or> (\<exists>ts t1 e. (StartTSO cfg \<noteq> 0 \<longrightarrow> ts = StartTSO cfg) \<and> (\<forall>e\<in>set t1. inner_event e \<and> \<not> failed e) \<and>
            out = Return (Some (Trace e)) \<and>
            trace st' = trace st @ selection cfg @ [Ev_NewMerge None, Enter_ExecuteHistoryDDLs ts] @ t1
              @ [Exit_ExecuteHistoryDDLs None, Ev_Map (Some e), Ev_Close (reserveTempDir cfg)])
    \<or> (\<exists>ts t1 t2 e. (StartTSO cfg \<noteq> 0 \<longrightarrow> ts = StartTSO cfg) \<and> (\<forall>e\<in>set t1. inner_event e \<and> \<not> failed e) \<and>
            (\<forall>e\<in>set t2. inner_event e) \<and>
            out = Return (Some (Annotate e ''load history ddls'')) \<and>
            trace st' = trace st @ selection cfg @ [Ev_NewMerge None, Enter_ExecuteHistoryDDLs ts] @ t1
              @ [Exit_ExecuteHistoryDDLs None, Ev_Map None, Enter_ExecuteHistoryDDLs ts] @ t2
              @ [Exit_ExecuteHistoryDDLs (Some e), Ev_Close (reserveTempDir cfg)])
    \<or> (\<exists>ts t1 t2 rr. (StartTSO cfg \<noteq> 0 \<longrightarrow> ts = StartTSO cfg) \<and> (\<forall>e\<in>set t1. inner_event e \<and> \<not> failed e) \<and>
            (\<forall>e\<in>set t2. inner_event e \<and> \<not> failed e) \<and>
            out = Return (map_option Trace rr) \<and>
            trace st' = trace st @ selection cfg @ [Ev_NewMerge None, Enter_ExecuteHistoryDDLs ts] @ t1
              @ [Exit_ExecuteHistoryDDLs None, Ev_Map None, Enter_ExecuteHistoryDDLs ts] @ t2
              @ [Exit_ExecuteHistoryDDLs None, Ev_Reduce rr, Ev_Close (reserveTempDir cfg)])"
  (is "?A \<or> ?B \<or> ?C \<or> ?D \<or> ?E \<or> ?F \<or> ?G \<or> ?H \<or> ?I")
proof -
  from Process_shape [OF assms] consider (early) "?A \<or> ?B \<or> ?C \<or> ?D \<or> ?E"
    | (merge) r m ts w4 st5 where "out = Return r"
        "Process_merge env cfg m ts \<lparr>world = w4, trace = trace st @ selection cfg @ [Ev_NewMerge None]\<rparr> = (r, st5)"
        "StartTSO cfg \<noteq> 0 \<longrightarrow> ts = StartTSO cfg"
        "trace st' = trace st5 @ [Ev_Close (reserveTempDir cfg)]"
    by (elim disjE exE conjE) simp_all
  then show ?thesis
  proof cases
    case early
    then show ?thesis by argo
  next
    case merge
    from Process_merge_shape [OF merge(2)] obtain t1 where i1: "\<forall>e\<in>set t1. inner_event e"
      and c: "(\<exists>e. r = Some (Annotate e ''load history ddls'') \<and>
          trace st5 = (trace st @ selection cfg @ [Ev_NewMerge None]) @ Enter_ExecuteHistoryDDLs ts # t1 @ [Exit_ExecuteHistoryDDLs (Some e)])
    \<or> (\<exists>e. r = Some (Trace e) \<and> (\<forall>e\<in>set t1. \<not> failed e) \<and>
          trace st5 = (trace st @ selection cfg @ [Ev_NewMerge None]) @ Enter_ExecuteHistoryDDLs ts # t1 @ [Exit_ExecuteHistoryDDLs None, Ev_Map (Some e)])
    \<or> (\<exists>t2. (\<forall>e\<in>set t2. inner_event e) \<and> (\<forall>e\<in>set t1. \<not> failed e) \<and>
          ((\<exists>e. r = Some (Annotate e ''load history ddls'') \<and>
              trace st5 = (trace st @ selection cfg @ [Ev_NewMerge None]) @ Enter_ExecuteHistoryDDLs ts # t1
                @ [Exit_ExecuteHistoryDDLs None, Ev_Map None, Enter_ExecuteHistoryDDLs ts] @ t2
                @ [Exit_ExecuteHistoryDDLs (Some e)])
         \<or> (\<exists>rr. r = map_option Trace rr \<and> (\<forall>e\<in>set t2. \<not> failed e) \<and>
              trace st5 = (trace st @ selection cfg @ [Ev_NewMerge None]) @ Enter_ExecuteHistoryDDLs ts # t1
                @ [Exit_ExecuteHistoryDDLs None, Ev_Map None, Enter_ExecuteHistoryDDLs ts] @ t2
                @ [Exit_ExecuteHistoryDDLs None, Ev_Reduce rr])))"
      by (elim exE conjE) (rule that, simp_all)
    from c show ?thesis
    proof (elim disjE exE conjE)
      fix e assume "r = Some (Annotate e ''load history ddls'')"
        "trace st5 = (trace st @ selection cfg @ [Ev_NewMerge None]) @ Enter_ExecuteHistoryDDLs ts # t1 @ [Exit_ExecuteHistoryDDLs (Some e)]"
      with merge i1 have ?F by (intro exI [of _ ts] exI [of _ t1] exI [of _ e]) simp
      then show ?thesis by argo
    next
      fix e assume "r = Some (Trace e)" "\<forall>e\<in>set t1. \<not> failed e"
        "trace st5 = (trace st @ selection cfg @ [Ev_NewMerge None]) @ Enter_ExecuteHistoryDDLs ts # t1 @ [Exit_ExecuteHistoryDDLs None, Ev_Map (Some e)]"
      with merge i1 have ?G by (intro exI [of _ ts] exI [of _ t1] exI [of _ e]) simp
      then show ?thesis by argo
    next
      fix t2 e assume "\<forall>e\<in>set t2. inner_event e" "\<forall>e\<in>set t1. \<not> failed e" "r = Some (Annotate e ''load history ddls'')"
        "trace st5 = (trace st @ selection cfg @ [Ev_NewMerge None]) @ Enter_ExecuteHistoryDDLs ts # t1
                @ [Exit_ExecuteHistoryDDLs None, Ev_Map None, Enter_ExecuteHistoryDDLs ts] @ t2
                @ [Exit_ExecuteHistoryDDLs (Some e)]"
      with merge i1 have ?H by (intro exI [of _ ts] exI [of _ t1] exI [of _ t2] exI [of _ e]) simp
      then show ?thesis by argo
    next
      fix t2 rr assume "\<forall>e\<in>set t2. inner_event e" "\<forall>e\<in>set t1. \<not> failed e" "r = map_option Trace rr"
        "\<forall>e\<in>set t2. \<not> failed e"
        "trace st5 = (trace st @ selection cfg @ [Ev_NewMerge None]) @ Enter_ExecuteHistoryDDLs ts # t1
                @ [Exit_ExecuteHistoryDDLs None, Ev_Map None, Enter_ExecuteHistoryDDLs ts] @ t2
                @ [Exit_ExecuteHistoryDDLs None, Ev_Reduce rr]"
      with merge i1 have ?I by (intro exI [of _ ts] exI [of _ t1] exI [of _ t2] exI [of _ rr]) simp
      then show ?thesis by argo
    qed
  qed
qed


lemma inner_plain:
  "inner_event e \<Longrightarrow> \<not> is_Map e \<and> \<not> is_Reduce e \<and> \<not> is_Close e \<and> \<not> is_Enter e \<and> \<not> step_failed e
     \<and> e \<noteq> Ev_NewMerge None"
  by (cases e) simp_all


lemma selection_plain:
  "e \<in> set (selection cfg) \<Longrightarrow> \<not> is_Map e \<and> \<not> is_Reduce e \<and> \<not> is_Close e \<and> \<not> is_Enter e \<and> \<not> step_failed e
     \<and> e \<noteq> Ev_NewMerge None"
  by (auto simp: selection_def split: if_splits)




subsection \<open>The time window\<close>

text \<open>
  C1. \<^verbatim>\<open>isAcceptableBinlog\<close> accepts a record exactly when its commit timestamp is at
  least \<open>startTs\<close> and, if \<open>stopTs\<close> is not 0, at most \<open>stopTs\<close>; with \<open>stopTs = 0\<close>
  the window has no upper bound, so only the lower bound decides.
\<close>

theorem isAcceptableBinlog_window:
  "(isAcceptableBinlog binlog startTs stopTs \<longleftrightarrow>
      sint startTs \<le> sint (CommitTs binlog) \<and>
      (stopTs \<noteq> 0 \<longrightarrow> sint (CommitTs binlog) \<le> sint stopTs))
   \<and> (isAcceptableBinlog binlog startTs 0 \<longleftrightarrow> sint startTs \<le> sint (CommitTs binlog))"
  by (auto simp: isAcceptableBinlog_def int64_le_def)

theorem isAcceptableBinlog_window_witness:
  "isAcceptableBinlog \<lparr>CommitTs = 5\<rparr> 3 7 \<and> (7 :: int64) \<noteq> 0
   \<and> sint (CommitTs \<lparr>CommitTs = 5\<rparr>) \<le> sint (7 :: int64)
   \<and> \<not> isAcceptableBinlog \<lparr>CommitTs = 9\<rparr> 3 7
   \<and> isAcceptableBinlog \<lparr>CommitTs = 9\<rparr> 3 0"
  using isAcceptableBinlog_window [of "\<lparr>CommitTs = 5\<rparr>" 3 7]
    isAcceptableBinlog_window [of "\<lparr>CommitTs = 9\<rparr>" 3 7]
  by simp

subsection \<open>Runs of the demo world\<close>

lemmas eval_defs = Process_def Process_merge_def ExecuteHistoryDDLs_def LoadBaseSchema_def
  loadHistoryDDLJobs_def createTiStore_def getSnapshotMeta_def firstBinlogTs_of_def
  call_def call_void_def emit_def init_def demo_env_def file_cfg_def pd_cfg_def newline_def
  sort_Slice_def version_of_def int64_less_def int64_of_uint64_def job_def
  demo_files_def demo_schema_def Map_fails_def

lemma demo_run:
  "Process (demo_env demo_files demo_schema [] []) file_cfg (init []) =
     (Return None,
      \<lparr>world = [''create t'', ''alter t'', '''', ''create t'', ''alter t'', ''''],
       trace =
         [Ev_searchFiles ''binlogs'' None, Ev_filterFiles 100 0 None, Ev_NewMerge None,
          Enter_ExecuteHistoryDDLs 100, Ev_ReadFile ''schema.sql'' (Inr demo_schema),
          ok_DDL ''create t'', ok_DDL ''alter t'', ok_DDL '''',
          Exit_ExecuteHistoryDDLs None, Ev_Map None,
          Enter_ExecuteHistoryDDLs 100, Ev_ReadFile ''schema.sql'' (Inr demo_schema),
          ok_DDL ''create t'', ok_DDL ''alter t'', ok_DDL '''',
          Exit_ExecuteHistoryDDLs None, Ev_Reduce None, Ev_Close False]\<rparr>)"
  by (simp add: eval_defs)

lemma demo_run_Map_fails:
  "Process (Map_fails (demo_env demo_files demo_schema [] [])) file_cfg (init []) =
     (Return (Some (Trace (Err ''SegmentIOError''))),
      \<lparr>world = [''create t'', ''alter t'', ''''],
       trace =
         [Ev_searchFiles ''binlogs'' None, Ev_filterFiles 100 0 None, Ev_NewMerge None,
          Enter_ExecuteHistoryDDLs 100, Ev_ReadFile ''schema.sql'' (Inr demo_schema),
          ok_DDL ''create t'', ok_DDL ''alter t'', ok_DDL '''',
          Exit_ExecuteHistoryDDLs None, Ev_Map (Some (Err ''SegmentIOError'')),
          Ev_Close False]\<rparr>)"
  by (simp add: eval_defs)

subsection \<open>The order of the phases\<close>

text \<open>
  C2. In every execution of \<^verbatim>\<open>Process\<close>, \<^verbatim>\<open>Map\<close> has run to completion before
  \<^verbatim>\<open>Reduce\<close> starts: if \<^verbatim>\<open>Reduce\<close> is called at all, the trace is some events, then the
  one call of \<^verbatim>\<open>Map\<close>, which returned \<^verbatim>\<open>nil\<close>, then some events, then the one call of
  \<^verbatim>\<open>Reduce\<close>, then \<^verbatim>\<open>Close\<close>, and no step failed. And if a step before
  \<^verbatim>\<open>Reduce\<close> (file search, file selection, the first commit timestamp, merge
  construction, history-DDL execution, \<^verbatim>\<open>Map\<close>) returned an error, then \<^verbatim>\<open>Process\<close>
  returns an error and \<^verbatim>\<open>Reduce\<close> is never called.
\<close>

theorem Process_Map_before_Reduce:
  assumes "Process env cfg (init w) = (out, st')"
  shows "((\<exists>e\<in>set (trace st'). is_Reduce e) \<longrightarrow>
            (\<exists>pre mid r. trace st' = pre @ Ev_Map None # mid @ [Ev_Reduce r, Ev_Close (reserveTempDir cfg)]
               \<and> (\<forall>e\<in>set (pre @ mid). \<not> is_Map e \<and> \<not> is_Reduce e \<and> \<not> step_failed e)))
     \<and> ((\<exists>e\<in>set (trace st'). step_failed e) \<longrightarrow>
            (\<exists>e. out = Return (Some e)) \<and> (\<forall>e\<in>set (trace st'). \<not> is_Reduce e))"
  using Process_runs [OF assms]
proof (elim disjE exE conjE)
  fix ts t1 t2 rr
  assume i: "\<forall>e\<in>set t1. inner_event e \<and> \<not> failed e" "\<forall>e\<in>set t2. inner_event e \<and> \<not> failed e"
    and o: "out = Return (map_option Trace rr)"
    and t: "trace st' = trace (init w) @ selection cfg @ [Ev_NewMerge None, Enter_ExecuteHistoryDDLs ts] @ t1
              @ [Exit_ExecuteHistoryDDLs None, Ev_Map None, Enter_ExecuteHistoryDDLs ts] @ t2
              @ [Exit_ExecuteHistoryDDLs None, Ev_Reduce rr, Ev_Close (reserveTempDir cfg)]"
  let ?pre = "selection cfg @ [Ev_NewMerge None, Enter_ExecuteHistoryDDLs ts] @ t1 @ [Exit_ExecuteHistoryDDLs None]"
  let ?mid = "Enter_ExecuteHistoryDDLs ts # t2 @ [Exit_ExecuteHistoryDDLs None]"
  have p: "\<forall>e\<in>set (?pre @ ?mid). \<not> is_Map e \<and> \<not> is_Reduce e \<and> \<not> step_failed e"
    using i by (auto dest: inner_plain selection_plain)
  from t have "trace st' = ?pre @ Ev_Map None # ?mid @ [Ev_Reduce rr, Ev_Close (reserveTempDir cfg)]"
    by (simp add: init_def)
  with p have 1: "\<exists>pre mid r. trace st' = pre @ Ev_Map None # mid @ [Ev_Reduce r, Ev_Close (reserveTempDir cfg)]
               \<and> (\<forall>e\<in>set (pre @ mid). \<not> is_Map e \<and> \<not> is_Reduce e \<and> \<not> step_failed e)"
    by blast
  from t i have "\<not> (\<exists>e\<in>set (trace st'). step_failed e)"
    by (auto simp: init_def dest: inner_plain selection_plain)
  with 1 show ?thesis by simp
qed (auto simp: init_def dest: inner_plain selection_plain)

theorem Process_Map_before_Reduce_witness:
  "filter is_Reduce (trace (snd (Process (demo_env demo_files demo_schema [] []) file_cfg (init []))))
     = [Ev_Reduce None]
   \<and> filter is_Map (trace (snd (Process (demo_env demo_files demo_schema [] []) file_cfg (init []))))
     = [Ev_Map None]
   \<and> filter step_failed (trace (snd (Process (Map_fails (demo_env demo_files demo_schema [] [])) file_cfg (init []))))
     = [Ev_Map (Some (Err ''SegmentIOError''))]
   \<and> fst (Process (Map_fails (demo_env demo_files demo_schema [] [])) file_cfg (init []))
     = Return (Some (Trace (Err ''SegmentIOError'')))
   \<and> filter is_Reduce (trace (snd (Process (Map_fails (demo_env demo_files demo_schema [] [])) file_cfg (init []))))
     = []"
  using Process_Map_before_Reduce [OF demo_run] Process_Map_before_Reduce [OF demo_run_Map_fails]
  by (simp add: demo_run demo_run_Map_fails)

subsection \<open>The cleanup\<close>



subsection \<open>The history DDLs run twice\<close>



subsection \<open>The history DDL jobs\<close>

lemma sint_small:
  assumes "uint (x :: 64 word) < 2 ^ 63"
  shows "sint x = uint x"
proof -
  have "- (2 ^ 63) \<le> (0 :: int)" by simp
  also have "(0 :: int) \<le> uint x" by simp
  finally have "- (2 ^ 63) \<le> uint x" .
  then have "signed_take_bit 63 (uint x) = uint x"
    using assms by (rule signed_take_bit_int_eq_self)
  then show ?thesis by (simp add: sint_uint)
qed

lemma uint_below_int64: "uint (x :: 64 word) < sint (b :: 64 word) \<Longrightarrow> sint x = uint x"
proof -
  assume a: "uint x < sint b"
  have "sint b < 2 ^ 63" using sint_lt [of b] by simp
  with a have "uint x < 2 ^ 63" by linarith
  then show ?thesis by (rule sint_small)
qed

lemma finished_before_in_range:
  assumes "finished_before beginTS j" and "FinishedTS_uint64 j < 2 ^ 63"
  shows "FinishedTS_uint64 j < sint beginTS"
proof -
  from assms(2) have "sint (FinishedTS (BinlogInfo j)) = uint (FinishedTS (BinlogInfo j))"
    by (simp add: FinishedTS_uint64_def sint_small)
  with assms(1) show ?thesis
    by (simp add: finished_before_def int64_less_def int64_of_uint64_def FinishedTS_uint64_def)
qed

lemma loadHistoryDDLJobs_jobs:
  assumes "loadHistoryDDLJobs env cfg beginTS st = (Inr jobs, st')"
  shows "\<exists>tr. trace st' = trace st @ tr
     \<and> (jobs = [] \<and> tr = [] \<and> PDURLs cfg = []
        \<or> (\<exists>allJobs. Ev_GetAllHistoryDDLJobs (Inr allJobs) \<in> set tr))
     \<and> (\<forall>allJobs. Ev_GetAllHistoryDDLJobs (Inr allJobs) \<in> set tr \<longrightarrow>
            jobs = filter (finished_before beginTS) (sort_Slice allJobs))"
proof (cases "PDURLs cfg = []")
  case True
  with assms have "jobs = []" "st' = st" by (simp_all add: loadHistoryDDLJobs_no_PD)
  then show ?thesis using True by simp
next
  case False
  from loadHistoryDDLJobs_trace [OF assms] obtain tr where
    t: "trace st' = trace st @ tr"
    and g: "\<forall>x. Ev_GetAllHistoryDDLJobs x \<in> set tr \<longrightarrow>
            Inr jobs = (case x of Inl e \<Rightarrow> Inl (Trace e)
                 | Inr allJobs \<Rightarrow> Inr (filter (finished_before beginTS) (sort_Slice allJobs)))"
    and e: "\<forall>js. Inr jobs = (Inr js :: err + Job list) \<longrightarrow> PDURLs cfg \<noteq> [] \<longrightarrow>
            (\<exists>allJobs. Ev_GetAllHistoryDDLJobs (Inr allJobs) \<in> set tr)"
    by (elim exE conjE) (rule that)
  from e False have 1: "\<exists>allJobs. Ev_GetAllHistoryDDLJobs (Inr allJobs) \<in> set tr" by simp
  from g have 2: "\<forall>allJobs. Ev_GetAllHistoryDDLJobs (Inr allJobs) \<in> set tr \<longrightarrow>
            jobs = filter (finished_before beginTS) (sort_Slice allJobs)"
    by fastforce
  from t 1 2 show ?thesis by blast
qed

lemma job_fields:
  "FinishedTS_uint64 (job i v f) = uint f" "FinishedTS_int64 (job i v f) = sint f"
  "version_of (job i v f) = sint v"
  by (simp_all add: FinishedTS_uint64_def FinishedTS_int64_def version_of_def job_def int64_of_uint64_def)

lemma demo_load:
  "loadHistoryDDLJobs (demo_env demo_files [] [job 1 2 30, job 2 1 35, job 3 3 50] []) pd_cfg 40 (init []) =
    (Inr [job 2 1 35, job 1 2 30],
     \<lparr>world = [], trace = [Ev_NewURLsValue ''pd:2379'' None,
        Ev_store_Register ''tikv'' None,
        Ev_store_New ''tikv://pd:2379?disableGC=true'' None,
        Ev_CurrentVersion None, Ev_GetSnapshot None,
        Ev_GetAllHistoryDDLJobs (Inr [job 1 2 30, job 2 1 35, job 3 3 50]),
        Ev_tiStore_Close, Ev_store_UnRegister ''tikv'']\<rparr>)"
  by (simp add: eval_defs)

lemma demo_load_wrapped:
  "loadHistoryDDLJobs (demo_env demo_files [] [job 1 1 9223372036854775808] []) pd_cfg 0 (init []) =
    (Inr [job 1 1 9223372036854775808],
     \<lparr>world = [], trace = [Ev_NewURLsValue ''pd:2379'' None,
        Ev_store_Register ''tikv'' None,
        Ev_store_New ''tikv://pd:2379?disableGC=true'' None,
        Ev_CurrentVersion None, Ev_GetSnapshot None,
        Ev_GetAllHistoryDDLJobs (Inr [job 1 1 9223372036854775808]),
        Ev_tiStore_Close, Ev_store_UnRegister ''tikv'']\<rparr>)"
  by (simp add: eval_defs)

text \<open>
  What the loop of lines 164 to 170 achieves. Every returned job has
  \<^verbatim>\<open>int64(FinishedTS)\<close> strictly below \<open>beginTS\<close>, which is \<^verbatim>\<open>FinishedTS\<close> strictly
  below \<open>beginTS\<close> whenever \<^verbatim>\<open>FinishedTS\<close> is below \<open>2^63\<close>; the list holds only
  jobs obtained from the history source, and every job obtained from it whose
  \<^verbatim>\<open>FinishedTS\<close> is strictly below \<open>beginTS\<close> is in the list.
\<close>

lemma loadHistoryDDLJobs_finished_before:
  assumes "loadHistoryDDLJobs env cfg beginTS st = (Inr jobs, st')"
  shows "(\<forall>job\<in>set jobs. FinishedTS_int64 job < sint beginTS)
     \<and> (\<forall>job\<in>set jobs. FinishedTS_uint64 job < 2 ^ 63 \<longrightarrow> FinishedTS_uint64 job < sint beginTS)
     \<and> (\<exists>tr. trace st' = trace st @ tr \<and>
          (\<forall>allJobs. Ev_GetAllHistoryDDLJobs (Inr allJobs) \<in> set tr \<longrightarrow>
             set jobs \<subseteq> set allJobs \<and>
             (\<forall>job\<in>set allJobs.
                FinishedTS_int64 job < sint beginTS \<or> FinishedTS_uint64 job < sint beginTS
                \<longrightarrow> job \<in> set jobs)))"
proof -
  from loadHistoryDDLJobs_jobs [OF assms] obtain tr where
    t: "trace st' = trace st @ tr"
    and c: "jobs = [] \<and> tr = [] \<and> PDURLs cfg = []
        \<or> (\<exists>allJobs. Ev_GetAllHistoryDDLJobs (Inr allJobs) \<in> set tr)"
    and g: "\<forall>allJobs. Ev_GetAllHistoryDDLJobs (Inr allJobs) \<in> set tr \<longrightarrow>
            jobs = filter (finished_before beginTS) (sort_Slice allJobs)"
    by (elim exE conjE) (rule that)
  have fb: "finished_before beginTS job \<longleftrightarrow> FinishedTS_int64 job < sint beginTS" for job
    by (simp add: finished_before_def FinishedTS_int64_def int64_less_def)
  have u: "FinishedTS_uint64 job < sint beginTS \<Longrightarrow> FinishedTS_int64 job < sint beginTS" for job
    using uint_below_int64 [of "FinishedTS (BinlogInfo job)" beginTS]
    by (simp add: FinishedTS_uint64_def FinishedTS_int64_def int64_of_uint64_def)
  have s: "FinishedTS_uint64 job < 2 ^ 63 \<Longrightarrow> FinishedTS_uint64 job = FinishedTS_int64 job" for job
    using sint_small [of "FinishedTS (BinlogInfo job)"]
    by (simp add: FinishedTS_uint64_def FinishedTS_int64_def int64_of_uint64_def)
  from c g have 1: "\<forall>job\<in>set jobs. FinishedTS_int64 job < sint beginTS"
    by (auto simp: fb)
  then have 2: "\<forall>job\<in>set jobs. FinishedTS_uint64 job < 2 ^ 63 \<longrightarrow> FinishedTS_uint64 job < sint beginTS"
    using s by auto
  have 3: "\<forall>allJobs. Ev_GetAllHistoryDDLJobs (Inr allJobs) \<in> set tr \<longrightarrow>
             set jobs \<subseteq> set allJobs \<and>
             (\<forall>job\<in>set allJobs.
                FinishedTS_int64 job < sint beginTS \<or> FinishedTS_uint64 job < sint beginTS
                \<longrightarrow> job \<in> set jobs)"
    using g u by (auto simp: fb sort_Slice_def)
  from 1 2 3 t show ?thesis by blast
qed

text \<open>
  C3. Every job in the list that \<^verbatim>\<open>loadHistoryDDLJobs\<close> returns should have a
  \<^verbatim>\<open>FinishedTS\<close> strictly below \<open>beginTS\<close>, as the comment of line 162 says. The code
  misses this where the conversion \<^verbatim>\<open>int64(FinishedTS)\<close> of line 165 overflows: the
  history below holds one job whose \<^verbatim>\<open>FinishedTS\<close> is \<open>2^63\<close>, which reads as a
  negative \<^verbatim>\<open>int64\<close>, and with \<open>beginTS = 0\<close> the job is returned, although its
  \<^verbatim>\<open>FinishedTS\<close> is not below 0.
\<close>

theorem loadHistoryDDLJobs_wrapped_FinishedTS:
  "fst (loadHistoryDDLJobs (demo_env demo_files [] [job 1 1 9223372036854775808] []) pd_cfg 0 (init []))
     = Inr [job 1 1 9223372036854775808]
   \<and> FinishedTS_uint64 (job 1 1 9223372036854775808) = 9223372036854775808
   \<and> FinishedTS_int64 (job 1 1 9223372036854775808) = - 9223372036854775808
   \<and> sint (0 :: int64) = 0
   \<and> \<not> FinishedTS_uint64 (job 1 1 9223372036854775808) < sint (0 :: int64)"
  by (simp add: demo_load_wrapped job_fields)

text \<open>
  C4 (amended). The list that \<^verbatim>\<open>loadHistoryDDLJobs\<close> returns is sorted ascending by
  \<^verbatim>\<open>BinlogInfo.SchemaVersion\<close>, the key of the comparison of lines 158 to 160:
  consecutive returned jobs are non-decreasing in schema version. The list is not sorted
  again by \<^verbatim>\<open>FinishedTS\<close>.
\<close>

theorem loadHistoryDDLJobs_sorted_by_version:
  assumes "loadHistoryDDLJobs env cfg beginTS st = (Inr jobs, st')"
  shows "sorted (map version_of jobs)"
proof -
  from loadHistoryDDLJobs_jobs [OF assms] obtain tr where
    c: "jobs = [] \<and> tr = [] \<and> PDURLs cfg = []
        \<or> (\<exists>allJobs. Ev_GetAllHistoryDDLJobs (Inr allJobs) \<in> set tr)"
    and g: "\<forall>allJobs. Ev_GetAllHistoryDDLJobs (Inr allJobs) \<in> set tr \<longrightarrow>
            jobs = filter (finished_before beginTS) (sort_Slice allJobs)"
    by (elim exE conjE) (rule that)
  from c show ?thesis
  proof
    assume "jobs = [] \<and> tr = [] \<and> PDURLs cfg = []"
    then show ?thesis by simp
  next
    assume "\<exists>allJobs. Ev_GetAllHistoryDDLJobs (Inr allJobs) \<in> set tr"
    with g obtain allJobs where "jobs = filter (finished_before beginTS) (sort_Slice allJobs)"
      by blast
    then show ?thesis
      by (simp add: sort_Slice_def sorted_filter)
  qed
qed

theorem loadHistoryDDLJobs_sorted_by_version_witness:
  "fst (loadHistoryDDLJobs (demo_env demo_files [] [job 1 2 30, job 2 1 35, job 3 3 50] []) pd_cfg 40 (init []))
     = Inr [job 2 1 35, job 1 2 30]
   \<and> map version_of [job 2 1 35, job 1 2 30] = [1, 2]"
  using loadHistoryDDLJobs_sorted_by_version [OF demo_load]
  by (simp add: demo_load job_fields)

text \<open>
  The claim as stated fails when a job of a lower schema version finished later: the
  returned jobs are in the order of their versions 1, 2 and their finished timestamps
  35, 30 decrease.
\<close>

theorem loadHistoryDDLJobs_not_sorted_by_FinishedTS:
  "fst (loadHistoryDDLJobs (demo_env demo_files [] [job 1 2 30, job 2 1 35, job 3 3 50] []) pd_cfg 40 (init []))
     = Inr [job 2 1 35, job 1 2 30]
   \<and> map FinishedTS_uint64 [job 2 1 35, job 1 2 30] = [35, 30]
   \<and> \<not> sorted (map FinishedTS_uint64 [job 2 1 35, job 1 2 30])
   \<and> \<not> sorted (map FinishedTS_int64 [job 2 1 35, job 1 2 30])"
  by (simp add: demo_load job_fields)

subsection \<open>The lines of the schema file\<close>

lemma strings_Split_not_Nil: "strings_Split s sep \<noteq> []"
  by (induction s) (auto split: list.splits)

lemma strings_Split_length:
  "length (strings_Split s sep) = Suc (length (filter (\<lambda>c. c = sep) s))"
  by (induction s) (auto split: list.splits simp: strings_Split_not_Nil)

lemma strings_Split_pieces:
  "l \<in> set (strings_Split s sep) \<Longrightarrow> sep \<notin> set l"
  by (induction s arbitrary: l) (auto split: if_splits list.splits)

lemma strings_Split_append:
  "strings_Split (a @ sep # b) sep = strings_Split a sep @ strings_Split b sep"
proof (induction a)
  case Nil
  then show ?case by simp
next
  case (Cons c a)
  then show ?case
    using strings_Split_not_Nil [of a sep]
    by (cases "strings_Split a sep") auto
qed

lemma strings_Split_trailing:
  assumes "s \<noteq> []" and "last s = sep"
  shows "last (strings_Split s sep) = []"
proof -
  from assms have "s = butlast s @ sep # []" by (metis append_butlast_last_id)
  then have "strings_Split s sep = strings_Split (butlast s) sep @ [[]]"
    using strings_Split_append [of "butlast s" sep "[]"] by simp
  then show ?thesis by simp
qed

lemma strings_Split_blank:
  "[] \<in> set (strings_Split (a @ [sep, sep] @ b) sep)"
  using strings_Split_append [of a sep "sep # b"] by simp

lemma submitted_append: "submitted (xs @ ys) = submitted xs @ submitted ys"
  by (induction xs rule: submitted.induct) simp_all

lemma submitted_ok: "submitted (map ok_DDL ddls) = ddls"
  by (induction ddls) simp_all

subsection \<open>Passes of the demo world\<close>

lemma demo_pass:
  "ExecuteHistoryDDLs (demo_env demo_files demo_schema [] []) file_cfg 100 (init []) =
     (None,
      \<lparr>world = [''create t'', ''alter t'', ''''],
       trace =
         [Enter_ExecuteHistoryDDLs 100, Ev_ReadFile ''schema.sql'' (Inr demo_schema),
          ok_DDL ''create t'', ok_DDL ''alter t'', ok_DDL '''',
          Exit_ExecuteHistoryDDLs None]\<rparr>)"
  by (simp add: eval_defs)

lemma demo_pass_history:
  "ExecuteHistoryDDLs (demo_env demo_files [] [job 1 2 30, job 2 1 35, job 3 3 50] []) pd_cfg 40 (init []) =
     (None,
      \<lparr>world = [''ddl'', ''ddl''],
       trace =
         [Enter_ExecuteHistoryDDLs 40, Ev_NewURLsValue ''pd:2379'' None,
          Ev_store_Register ''tikv'' None,
          Ev_store_New ''tikv://pd:2379?disableGC=true'' None,
          Ev_CurrentVersion None, Ev_GetSnapshot None,
          Ev_GetAllHistoryDDLJobs (Inr [job 1 2 30, job 2 1 35, job 3 3 50]),
          Ev_tiStore_Close, Ev_store_UnRegister ''tikv'',
          Ev_ddl_ExecuteHistoryDDLs [job 2 1 35, job 1 2 30] None,
          Exit_ExecuteHistoryDDLs None]\<rparr>)"
  by (simp add: eval_defs)

lemma demo_pass_rejected:
  "ExecuteHistoryDDLs (demo_env demo_files two_statements [] [''create t''])
       file_cfg 100 (init []) =
     (Some (Err ''DDLApplyError''),
      \<lparr>world = [],
       trace =
         [Enter_ExecuteHistoryDDLs 100,
          Ev_ReadFile ''schema.sql'' (Inr two_statements),
          Ev_ExecuteDDL '''' ''create t'' (Some (Err ''DDLApplyError'')),
          Exit_ExecuteHistoryDDLs (Some (Err ''DDLApplyError''))]\<rparr>)"
  by (simp add: eval_defs two_statements_def)

lemma demo_pass_rejected_newline:
  "ExecuteHistoryDDLs (demo_env demo_files one_statement [] [''create t''])
       file_cfg 100 (init []) =
     (Some (Err ''DDLApplyError''),
      \<lparr>world = [],
       trace =
         [Enter_ExecuteHistoryDDLs 100,
          Ev_ReadFile ''schema.sql'' (Inr one_statement),
          Ev_ExecuteDDL '''' ''create t'' (Some (Err ''DDLApplyError'')),
          Exit_ExecuteHistoryDDLs (Some (Err ''DDLApplyError''))]\<rparr>)"
  by (simp add: eval_defs one_statement_def)

lemma demo_lines:
  "strings_Split demo_schema newline = [''create t'', ''alter t'', '''']"
  by (simp add: demo_schema_def newline_def)

lemma two_statements_lines:
  "strings_Split two_statements newline = [''create t'', ''alter t'']"
  by (simp add: two_statements_def newline_def)

lemma one_statement_lines:
  "strings_Split one_statement newline = [''create t'', '''']"
  by (simp add: one_statement_def newline_def)

lemma demo_cfgs:
  "schemaFile file_cfg = ''schema.sql''" "schemaFile pd_cfg = ''''" "PDURLs pd_cfg = ''pd:2379''"
  "StartTSO file_cfg = 100" "StopTSO file_cfg = 0" "Dir file_cfg = ''binlogs''"
  by (simp_all add: file_cfg_def pd_cfg_def)

subsection \<open>The schema source\<close>

text \<open>
  C6 (amended). \<^verbatim>\<open>ExecuteHistoryDDLs\<close> uses exactly one schema source. If a base schema
  file is configured (\<^verbatim>\<open>schemaFile\<close> not empty), all it does is read that file and
  execute its lines, and it never consults the live history source: when the read fails it
  returns that error; otherwise either it returns \<^verbatim>\<open>nil\<close> and its calls are the read and
  then one successful \<^verbatim>\<open>ExecuteDDL\<close> for every line, in order, or it returns the error
  of line \<open>k\<close> and its calls are the read, one successful \<^verbatim>\<open>ExecuteDDL\<close> for each of
  the lines before line \<open>k\<close>, and the failed \<^verbatim>\<open>ExecuteDDL\<close> of line \<open>k\<close>, with no
  call after it. If no schema file is configured it never reads a file and executes no
  line: it loads the history DDL jobs and, when that succeeds, hands the loaded jobs to
  \<^verbatim>\<open>ddlHandle.ExecuteHistoryDDLs\<close> as its last and only call outside the history
  source; every loaded job whose finished timestamp is below \<open>2^63\<close> has it before the
  begin timestamp. In both cases it returns an error if and only if one of its calls
  (reading the file, loading the jobs, applying a DDL) fails.
\<close>

theorem ExecuteHistoryDDLs_one_source:
  assumes "ExecuteHistoryDDLs env cfg beginTS st = (r, st')"
  shows "\<exists>tr. trace st' = trace st @ Enter_ExecuteHistoryDDLs beginTS # tr @ [Exit_ExecuteHistoryDDLs r]
     \<and> ((\<exists>e\<in>set tr. failed e) \<longleftrightarrow> r \<noteq> None)
     \<and> (schemaFile cfg \<noteq> [] \<longrightarrow>
          (\<forall>e\<in>set tr. file_event e) \<and>
          (\<exists>rc. take 1 tr = [Ev_ReadFile (schemaFile cfg) rc]
             \<and> fst (ioutil_ReadFile env (schemaFile cfg) (world st)) = rc
             \<and> (\<forall>e. rc = Inl e \<longrightarrow> r = Some e \<and> tr = [Ev_ReadFile (schemaFile cfg) (Inl e)])
             \<and> (\<forall>content. rc = Inr content \<longrightarrow>
                  (r = None \<and>
                   tr = Ev_ReadFile (schemaFile cfg) (Inr content) # map ok_DDL (strings_Split content newline)
                   \<or> (\<exists>k e. k < length (strings_Split content newline) \<and> r = Some e \<and>
                         tr = Ev_ReadFile (schemaFile cfg) (Inr content)
                              # map ok_DDL (take k (strings_Split content newline))
                              @ [Ev_ExecuteDDL '''' (strings_Split content newline ! k) (Some e)])) \<and>
                  (\<exists>k. submitted tr = take k (strings_Split content newline)) \<and>
                  (r = None \<longrightarrow> submitted tr = strings_Split content newline))))
     \<and> (schemaFile cfg = [] \<longrightarrow>
          (\<forall>e\<in>set tr. \<not> file_event e) \<and>
          (\<exists>rl st1. loadHistoryDDLJobs env cfg beginTS (emit (Enter_ExecuteHistoryDDLs beginTS) st) = (rl, st1)
             \<and> (\<forall>jobs. rl = Inr jobs \<longrightarrow>
                  (\<forall>job\<in>set jobs. FinishedTS_uint64 job < 2 ^ 63 \<longrightarrow> FinishedTS_uint64 job < sint beginTS) \<and>
                  (\<forall>e\<in>set (butlast tr). history_event e) \<and>
                  (\<exists>rx. tr \<noteq> [] \<and> last tr = Ev_ddl_ExecuteHistoryDDLs jobs rx \<and> r = map_option Trace rx))
             \<and> (\<forall>e. rl = Inl e \<longrightarrow>
                  r = Some (Annotate e ''load history ddls'') \<and> (\<forall>e\<in>set tr. history_event e))))"
proof (cases "schemaFile cfg = []")
  case False
  let ?p = "schemaFile cfg"
  from ExecuteHistoryDDLs_file [OF False assms] show ?thesis
  proof (elim disjE exE conjE)
    fix e assume "r = Some e" "fst (ioutil_ReadFile env ?p (world st)) = Inl e"
      "trace st' = trace st @ [Enter_ExecuteHistoryDDLs beginTS, Ev_ReadFile ?p (Inl e), Exit_ExecuteHistoryDDLs r]"
    then show ?thesis using False
      by (intro exI [of _ "[Ev_ReadFile ?p (Inl e)]"]) simp
  next
    fix content
    let ?lines = "strings_Split content newline"
    assume "r = None" "fst (ioutil_ReadFile env ?p (world st)) = Inr content"
      "trace st' = trace st @ [Enter_ExecuteHistoryDDLs beginTS, Ev_ReadFile ?p (Inr content)]
         @ map ok_DDL ?lines @ [Exit_ExecuteHistoryDDLs r]"
    then show ?thesis using False
      by (intro exI [of _ "Ev_ReadFile ?p (Inr content) # map ok_DDL ?lines"])
         (auto simp: submitted_ok intro: exI [of _ "length ?lines"])
  next
    fix content k e
    let ?lines = "strings_Split content newline"
    assume k: "k < length ?lines" and "r = Some e" "fst (ioutil_ReadFile env ?p (world st)) = Inr content"
      "trace st' = trace st @ [Enter_ExecuteHistoryDDLs beginTS, Ev_ReadFile ?p (Inr content)]
         @ map ok_DDL (take k ?lines) @ [Ev_ExecuteDDL '''' (?lines ! k) (Some e), Exit_ExecuteHistoryDDLs r]"
    moreover have "submitted (map ok_DDL (take k ?lines) @ [Ev_ExecuteDDL '''' (?lines ! k) (Some e)])
        = take (Suc k) ?lines"
      using k by (simp add: submitted_append submitted_ok take_Suc_conv_app_nth)
    ultimately show ?thesis using False
      by (intro exI [of _ "Ev_ReadFile ?p (Inr content) # map ok_DDL (take k ?lines)
             @ [Ev_ExecuteDDL '''' (?lines ! k) (Some e)]"])
         (auto intro: exI [of _ "Suc k"])
  qed
next
  case True
  from ExecuteHistoryDDLs_history [OF True assms] obtain rl st1 tr where
    l: "loadHistoryDDLJobs env cfg beginTS (emit (Enter_ExecuteHistoryDDLs beginTS) st) = (rl, st1)"
    and t: "trace st1 = trace st @ Enter_ExecuteHistoryDDLs beginTS # tr"
    and c: "(case rl of
            Inl e \<Rightarrow> r = Some (Annotate e ''load history ddls'')
                  \<and> trace st' = trace st @ Enter_ExecuteHistoryDDLs beginTS # tr @ [Exit_ExecuteHistoryDDLs r]
          | Inr jobs \<Rightarrow> \<exists>rx. r = map_option Trace rx
                  \<and> trace st' = trace st @ Enter_ExecuteHistoryDDLs beginTS # tr
                        @ [Ev_ddl_ExecuteHistoryDDLs jobs rx, Exit_ExecuteHistoryDDLs r])"
    by (elim exE conjE) (rule that)
  from loadHistoryDDLJobs_trace [OF l] t have h: "\<forall>e\<in>set tr. history_event e"
    and f: "(\<exists>e\<in>set tr. failed e) \<longleftrightarrow> errOf rl \<noteq> None"
    by (auto simp: emit_def)
  have nf: "\<not> file_event e" if "history_event e" for e
    using that by (cases e) simp_all
  show ?thesis
  proof (cases rl)
    case (Inl e)
    with c h f l True nf show ?thesis
      by (intro exI [of _ tr]) auto
  next
    case (Inr jobs)
    with c obtain rx where rx: "r = map_option Trace rx"
      and t': "trace st' = trace st @ Enter_ExecuteHistoryDDLs beginTS # (tr
                        @ [Ev_ddl_ExecuteHistoryDDLs jobs rx]) @ [Exit_ExecuteHistoryDDLs r]" by auto
    from l Inr have "loadHistoryDDLJobs env cfg beginTS (emit (Enter_ExecuteHistoryDDLs beginTS) st) = (Inr jobs, st1)"
      by simp
    from loadHistoryDDLJobs_jobs [OF this] have "\<forall>job\<in>set jobs. finished_before beginTS job"
      by auto
    then have fb: "\<forall>job\<in>set jobs. FinishedTS_uint64 job < 2 ^ 63 \<longrightarrow> FinishedTS_uint64 job < sint beginTS"
      using finished_before_in_range by blast
    have 1: "(\<exists>e\<in>set (tr @ [Ev_ddl_ExecuteHistoryDDLs jobs rx]). failed e) \<longleftrightarrow> r \<noteq> None"
      using f Inr rx by auto
    have 2: "\<forall>e\<in>set (tr @ [Ev_ddl_ExecuteHistoryDDLs jobs rx]). \<not> file_event e"
      using h nf by auto
    from t' 1 2 fb h rx l Inr True show ?thesis
      by (intro exI [of _ "tr @ [Ev_ddl_ExecuteHistoryDDLs jobs rx]"]) simp
  qed
qed

theorem ExecuteHistoryDDLs_one_source_witness:
  "schemaFile file_cfg \<noteq> [] \<and> schemaFile pd_cfg = []
   \<and> fst (ExecuteHistoryDDLs (demo_env demo_files demo_schema [] []) file_cfg 100 (init [])) = None
   \<and> submitted (trace (snd (ExecuteHistoryDDLs (demo_env demo_files demo_schema [] []) file_cfg 100 (init []))))
       = strings_Split demo_schema newline
   \<and> filter history_event (trace (snd (ExecuteHistoryDDLs (demo_env demo_files demo_schema [] []) file_cfg 100 (init []))))
       = []
   \<and> fst (ExecuteHistoryDDLs (demo_env demo_files [] [job 1 2 30, job 2 1 35, job 3 3 50] []) pd_cfg 40 (init []))
       = None
   \<and> filter file_event (trace (snd (ExecuteHistoryDDLs (demo_env demo_files [] [job 1 2 30, job 2 1 35, job 3 3 50] [])
        pd_cfg 40 (init [])))) = []"
  using ExecuteHistoryDDLs_one_source [OF demo_pass] ExecuteHistoryDDLs_one_source [OF demo_pass_history]
  by (simp add: demo_pass demo_pass_history demo_lines demo_cfgs)

text \<open>
  The claim as stated fails where it says that every DDL line of the file is applied: of
  the two lines of the file below the first is rejected, and the second is never
  submitted.
\<close>

theorem ExecuteHistoryDDLs_line_not_applied:
  "schemaFile file_cfg \<noteq> []
   \<and> strings_Split two_statements newline = [''create t'', ''alter t'']
   \<and> submitted (trace (snd (ExecuteHistoryDDLs
        (demo_env demo_files two_statements [] [''create t'']) file_cfg 100 (init []))))
       = [''create t'']
   \<and> filter failed (trace (snd (ExecuteHistoryDDLs
        (demo_env demo_files two_statements [] [''create t'']) file_cfg 100 (init []))))
       = [Ev_ExecuteDDL '''' ''create t'' (Some (Err ''DDLApplyError'')),
          Exit_ExecuteHistoryDDLs (Some (Err ''DDLApplyError''))]"
  by (simp add: demo_pass_rejected two_statements_lines demo_cfgs)

subsection \<open>Empty lines of the schema file\<close>

text \<open>
  C9 (amended). \<^verbatim>\<open>LoadBaseSchema\<close> splits the content of the schema file at the
  newline characters, and \<^verbatim>\<open>ExecuteHistoryDDLs\<close> passes the resulting lines to the DDL
  executor in order, the empty ones as well, until one fails: either it returns \<^verbatim>\<open>nil\<close>
  and every line was submitted, or it returns the error of the first line that failed and
  the lines after that one were not submitted. A content that ends in a newline has an
  empty last line, and a content with two newlines in a row has an empty line; so when
  every line before it executes without error, an empty-string DDL is submitted rather than
  skipped.
\<close>

theorem ExecuteHistoryDDLs_empty_lines:
  assumes "schemaFile cfg \<noteq> []" and "ExecuteHistoryDDLs env cfg beginTS st = (r, st')"
    and "fst (ioutil_ReadFile env (schemaFile cfg) (world st)) = Inr content"
  shows "fst (LoadBaseSchema env cfg st) = Inr (strings_Split content newline)
     \<and> (r = None \<and> trace st' = trace st @
            [Enter_ExecuteHistoryDDLs beginTS, Ev_ReadFile (schemaFile cfg) (Inr content)]
            @ map ok_DDL (strings_Split content newline) @ [Exit_ExecuteHistoryDDLs None]
        \<or> (\<exists>k e. k < length (strings_Split content newline) \<and> r = Some e \<and> trace st' = trace st @
            [Enter_ExecuteHistoryDDLs beginTS, Ev_ReadFile (schemaFile cfg) (Inr content)]
            @ map ok_DDL (take k (strings_Split content newline))
            @ [Ev_ExecuteDDL '''' (strings_Split content newline ! k) (Some e), Exit_ExecuteHistoryDDLs (Some e)]))
     \<and> (content \<noteq> [] \<and> last content = newline \<longrightarrow> last (strings_Split content newline) = [])
     \<and> (\<forall>a b. content = a @ [newline, newline] @ b \<longrightarrow> [] \<in> set (strings_Split content newline))
     \<and> (r = None \<and> [] \<in> set (strings_Split content newline) \<longrightarrow> ok_DDL [] \<in> set (trace st'))"
proof -
  have 1: "fst (LoadBaseSchema env cfg st) = Inr (strings_Split content newline)"
    using assms(3) by (auto simp: LoadBaseSchema_def run_defs split: prod.splits sum.splits)
  have 2: "r = None \<and> trace st' = trace st @
            [Enter_ExecuteHistoryDDLs beginTS, Ev_ReadFile (schemaFile cfg) (Inr content)]
            @ map ok_DDL (strings_Split content newline) @ [Exit_ExecuteHistoryDDLs None]
        \<or> (\<exists>k e. k < length (strings_Split content newline) \<and> r = Some e \<and> trace st' = trace st @
            [Enter_ExecuteHistoryDDLs beginTS, Ev_ReadFile (schemaFile cfg) (Inr content)]
            @ map ok_DDL (take k (strings_Split content newline))
            @ [Ev_ExecuteDDL '''' (strings_Split content newline ! k) (Some e), Exit_ExecuteHistoryDDLs (Some e)])"
    using ExecuteHistoryDDLs_file [OF assms(1,2)] assms(3) by auto
  have 3: "content \<noteq> [] \<and> last content = newline \<longrightarrow> last (strings_Split content newline) = []"
    by (simp add: strings_Split_trailing)
  have 4: "\<forall>a b. content = a @ [newline, newline] @ b \<longrightarrow> [] \<in> set (strings_Split content newline)"
    using strings_Split_blank by blast
  have 5: "r = None \<and> [] \<in> set (strings_Split content newline) \<longrightarrow> ok_DDL [] \<in> set (trace st')"
    using 2 by auto
  from 1 2 3 4 5 show ?thesis by blast
qed

theorem ExecuteHistoryDDLs_empty_lines_witness:
  "schemaFile file_cfg \<noteq> []
   \<and> fst (ioutil_ReadFile (demo_env demo_files demo_schema [] []) (schemaFile file_cfg) (world (init [])))
       = Inr demo_schema
   \<and> last demo_schema = newline
   \<and> strings_Split demo_schema newline = [''create t'', ''alter t'', '''']
   \<and> fst (ExecuteHistoryDDLs (demo_env demo_files demo_schema [] []) file_cfg 100 (init [])) = None
   \<and> submitted (trace (snd (ExecuteHistoryDDLs (demo_env demo_files demo_schema [] []) file_cfg 100 (init []))))
       = [''create t'', ''alter t'', '''']"
  using ExecuteHistoryDDLs_empty_lines [OF _ demo_pass, of demo_schema]
  by (simp add: demo_pass demo_lines demo_cfgs) (simp add: demo_env_def demo_schema_def)

text \<open>
  The claim as stated fails for a schema file that ends in a newline and whose first
  statement is rejected: the loop returns at the rejected statement and the empty string
  after the newline is never submitted.
\<close>

theorem ExecuteHistoryDDLs_empty_line_not_reached:
  "schemaFile file_cfg \<noteq> []
   \<and> last one_statement = newline
   \<and> strings_Split one_statement newline = [''create t'', '''']
   \<and> submitted (trace (snd (ExecuteHistoryDDLs
        (demo_env demo_files one_statement [] [''create t'']) file_cfg 100 (init []))))
       = [''create t'']"
  by (simp add: demo_pass_rejected_newline one_statement_lines demo_cfgs) (simp add: one_statement_def)

subsection \<open>No input files\<close>

text \<open>
  \<^verbatim>\<open>Process\<close> itself does not look at the length of the selected list: if
  \<^verbatim>\<open>filterFiles\<close> returned an empty list and no error, \<^verbatim>\<open>files[0]\<close> would panic when
  \<^verbatim>\<open>StartTSO\<close> is 0.
\<close>

lemma Process_empty_selection_panics:
  assumes "searchFiles env (Dir cfg) w = (Inr files, w1)"
    and "filterFiles env files (StartTSO cfg) (StopTSO cfg) w1 = (Inr ([], fileSize), w2)"
    and "StartTSO cfg = 0"
  shows "fst (Process env cfg (init w)) = Panic ''index out of range''"
  using assms by (simp add: Process_def firstBinlogTs_of_def run_defs init_def)

text \<open>
  C7. With the file selection of the specification, for every run in which the time window
  excludes all candidate files (the retained set is empty), \<^verbatim>\<open>Process\<close> returns the
  \<open>NoInputFiles\<close> error of the selection, annotated, right after the selection: nothing
  else is called. This holds for \<^verbatim>\<open>StartTSO = 0\<close> as well, where the first retained file
  is never read.
\<close>

theorem Process_NoInputFiles:
  assumes "filterFiles env = (\<lambda>files startTs stopTs w. (filterFiles_spec files startTs stopTs, w))"
    and "searchFiles env (Dir cfg) w = (Inr files, w1)"
    and "retained files (StartTSO cfg) (StopTSO cfg) = []"
  shows "Process env cfg (init w) =
      (Return (Some (Annotate NoInputFiles ''filterFiles failed'')),
       \<lparr>world = w1,
        trace = [Ev_searchFiles (Dir cfg) None,
                 Ev_filterFiles (StartTSO cfg) (StopTSO cfg) (Some NoInputFiles)]\<rparr>)
     \<and> Cause (Annotate NoInputFiles ''filterFiles failed'') = NoInputFiles"
  using assms by (simp add: Process_def run_defs init_def filterFiles_spec_def NoInputFiles_def)

theorem Process_NoInputFiles_witness:
  "StartTSO open_cfg = 0
   \<and> retained [early_file] (StartTSO open_cfg) (StopTSO open_cfg) = []
   \<and> fst (Process (selecting (demo_env [early_file] demo_schema [] [])) open_cfg (init []))
       = Return (Some (Annotate NoInputFiles ''filterFiles failed''))
   \<and> trace (snd (Process (selecting (demo_env [early_file] demo_schema [] [])) open_cfg (init [])))
       = [Ev_searchFiles ''binlogs'' None, Ev_filterFiles 0 50 (Some NoInputFiles)]
   \<and> retained [early_file] (StartTSO late_cfg) (StopTSO late_cfg) = []
   \<and> fst (Process (selecting (demo_env [early_file] demo_schema [] [])) late_cfg (init []))
       = Return (Some (Annotate NoInputFiles ''filterFiles failed''))
   \<and> retained ([] :: binlogFile list) (StartTSO open_cfg) (StopTSO open_cfg) = []
   \<and> fst (Process (selecting (demo_env [] demo_schema [] [])) open_cfg (init []))
       = Return (Some (Annotate NoInputFiles ''filterFiles failed''))"
  using Process_NoInputFiles [of "selecting (demo_env [early_file] demo_schema [] [])" open_cfg "[]" "[early_file]" "[]"]
    Process_NoInputFiles [of "selecting (demo_env [early_file] demo_schema [] [])" late_cfg "[]" "[early_file]" "[]"]
    Process_NoInputFiles [of "selecting (demo_env [] demo_schema [] [])" open_cfg "[]" "[]" "[]"]
  by (simp add: selecting_def demo_env_def retained_def overlaps_window_def int64_le_def
      early_file_def open_cfg_def late_cfg_def)

subsection \<open>Nothing configured\<close>

text \<open>
  C10. If no base schema file and no PD URLs are configured, then for every begin timestamp
  \<^verbatim>\<open>loadHistoryDDLJobs\<close> returns the empty list and no error without touching the
  store, and \<^verbatim>\<open>ExecuteHistoryDDLs\<close> hands the empty list to the executor of the
  specification, returns \<^verbatim>\<open>nil\<close> and leaves the schema state as it was: no DDL is
  applied.
\<close>

theorem ExecuteHistoryDDLs_nothing_configured:
  assumes "schemaFile cfg = []" and "PDURLs cfg = []"
    and "ddlHandle_ExecuteHistoryDDLs env = ExecuteHistoryDDLs_spec applyDDL"
  shows "loadHistoryDDLJobs env cfg beginTS st = (Inr [], st)
     \<and> ExecuteHistoryDDLs env cfg beginTS st =
         (None, \<lparr>world = world st,
                 trace = trace st @ [Enter_ExecuteHistoryDDLs beginTS,
                                     Ev_ddl_ExecuteHistoryDDLs [] None,
                                     Exit_ExecuteHistoryDDLs None]\<rparr>)"
  using assms by (simp add: loadHistoryDDLJobs_def ExecuteHistoryDDLs_def run_defs)

theorem ExecuteHistoryDDLs_nothing_configured_witness:
  "schemaFile bare_cfg = [] \<and> PDURLs bare_cfg = []
   \<and> loadHistoryDDLJobs (applying (demo_env demo_files demo_schema [job 1 1 30] [])) bare_cfg 100 (init [])
       = (Inr [], init [])
   \<and> ExecuteHistoryDDLs (applying (demo_env demo_files demo_schema [job 1 1 30] [])) bare_cfg 100 (init [])
       = (None, \<lparr>world = [],
                 trace = [Enter_ExecuteHistoryDDLs 100, Ev_ddl_ExecuteHistoryDDLs [] None,
                          Exit_ExecuteHistoryDDLs None]\<rparr>)"
  using ExecuteHistoryDDLs_nothing_configured [of bare_cfg "applying (demo_env demo_files demo_schema [job 1 1 30] [])"
      "\<lambda>job w. (None, w @ [Query job])" 100 "init []"]
  by (simp add: applying_def bare_cfg_def init_def)

end
